theory Spec2Isabelle
  imports Complex_Main "HOL-Library.Sublist" "HOL-Library.Log_Nat"
begin

section \<open>Numbers\<close>

text \<open>
  A JavaScript number is a binary64 value. It is modelled as a real number or one of the
  three special values. Arithmetic on finite values is that of the reals, with the two
  effects of the binary64 format that change a result in kind:
  \<^item> overflow: a result whose magnitude reaches \<open>2\<^sup>1\<^sup>0\<^sup>2\<^sup>4 - 2\<^sup>9\<^sup>7\<^sup>0\<close>, the midpoint between
    \<^verbatim>\<open>Number.MAX_VALUE\<close> and \<open>2\<^sup>1\<^sup>0\<^sup>2\<^sup>4\<close>, is an infinity;
  \<^item> absorption: a sum is its larger operand when the other one does not reach half the
    distance to the neighbouring binary64 number (\<open>1 + x\<close> is \<open>1\<close> for
    \<open>0 \<le> x \<le> 2\<^sup>-\<^sup>5\<^sup>3\<close>).

  Rounding in the last place of a result that is neither, underflow and subnormal numbers
  are outside the model. The special values also arise from division by zero, and they
  propagate as in ECMAScript. Zero carries no sign: a zero divisor is taken as \<open>+0\<close>.
\<close>

datatype jsnum = Num real | NaN | PosInf | NegInf

fun isFinite :: "jsnum \<Rightarrow> bool" where
  "isFinite (Num x) = True"
| "isFinite NaN = False"
| "isFinite PosInf = False"
| "isFinite NegInf = False"

text \<open>The result of an operation on finite numbers whose exact value is \<open>x\<close>.\<close>

definition overflowAt :: real where
  "overflowAt = 2 ^ 1024 - 2 ^ 970"

definition fin :: "real \<Rightarrow> jsnum" where
  "fin x = (if overflowAt \<le> x then PosInf else if x \<le> - overflowAt then NegInf else Num x)"

text \<open>
  The binade of a number \<open>x \<noteq> 0\<close> is the exponent \<open>e\<close> with \<open>2\<^sup>e \<le> \<bar>x\<bar> < 2\<^sup>e\<^sup>+\<^sup>1\<close>. The
  binary64 numbers of that binade are \<open>2\<^sup>e\<^sup>-\<^sup>5\<^sup>2\<close> apart, and the next one below \<open>2\<^sup>e\<close>
  is \<open>2\<^sup>e\<^sup>-\<^sup>5\<^sup>3\<close> away. \<open>halfGap x y\<close> is half the distance from \<open>x\<close> to its neighbour on
  the side that adding \<open>y\<close> moves to. A sum \<open>x + y\<close> that falls short of the midpoint is
  rounded back to \<open>x\<close>; on the midpoint it is rounded to the neighbour whose significand is
  even.
\<close>

definition binade :: "real \<Rightarrow> int" where
  "binade x =
     (if 1 \<le> \<bar>x\<bar> then bitlen \<lfloor>\<bar>x\<bar>\<rfloor> - 1
      else if 1 / \<bar>x\<bar> = 2 ^ nat (bitlen \<lfloor>1 / \<bar>x\<bar>\<rfloor> - 1) then 1 - bitlen \<lfloor>1 / \<bar>x\<bar>\<rfloor>
      else - bitlen \<lfloor>1 / \<bar>x\<bar>\<rfloor>)"

definition halfGap :: "real \<Rightarrow> real \<Rightarrow> real" where
  "halfGap x y =
     (if \<bar>x\<bar> = 2 powi binade x \<and> x * y < 0 then 2 powi (binade x - 54)
      else 2 powi (binade x - 53))"

definition absorbs :: "real \<Rightarrow> real \<Rightarrow> bool" where
  "absorbs x y =
     (x \<noteq> 0 \<and> (\<bar>y\<bar> < halfGap x y
               \<or> (\<bar>y\<bar> = halfGap x y \<and> even \<lfloor>\<bar>x\<bar> / 2 powi (binade x - 52)\<rfloor>)))"

fun jneg :: "jsnum \<Rightarrow> jsnum" where
  "jneg (Num x) = Num (- x)"
| "jneg NaN = NaN"
| "jneg PosInf = NegInf"
| "jneg NegInf = PosInf"

fun jadd :: "jsnum \<Rightarrow> jsnum \<Rightarrow> jsnum" where
  "jadd (Num x) (Num y) =
     (if absorbs x y then Num x else if absorbs y x then Num y else fin (x + y))"
| "jadd NaN b = NaN"
| "jadd a NaN = NaN"
| "jadd PosInf NegInf = NaN"
| "jadd NegInf PosInf = NaN"
| "jadd PosInf b = PosInf"
| "jadd NegInf b = NegInf"
| "jadd a PosInf = PosInf"
| "jadd a NegInf = NegInf"

definition jsub :: "jsnum \<Rightarrow> jsnum \<Rightarrow> jsnum" where
  "jsub a b = jadd a (jneg b)"

text \<open>The sign of an infinite product or quotient: \<open>scaleInf positive\<close>.\<close>

fun scaleInf :: "bool \<Rightarrow> jsnum" where
  "scaleInf True = PosInf"
| "scaleInf False = NegInf"

fun jmul :: "jsnum \<Rightarrow> jsnum \<Rightarrow> jsnum" where
  "jmul (Num x) (Num y) = fin (x * y)"
| "jmul NaN b = NaN"
| "jmul a NaN = NaN"
| "jmul PosInf (Num y) = (if y = 0 then NaN else scaleInf (0 < y))"
| "jmul NegInf (Num y) = (if y = 0 then NaN else scaleInf (y < 0))"
| "jmul (Num x) PosInf = (if x = 0 then NaN else scaleInf (0 < x))"
| "jmul (Num x) NegInf = (if x = 0 then NaN else scaleInf (x < 0))"
| "jmul PosInf PosInf = PosInf"
| "jmul PosInf NegInf = NegInf"
| "jmul NegInf PosInf = NegInf"
| "jmul NegInf NegInf = PosInf"

fun jdiv :: "jsnum \<Rightarrow> jsnum \<Rightarrow> jsnum" where
  "jdiv (Num x) (Num y) =
     (if y \<noteq> 0 then fin (x / y) else if x = 0 then NaN else scaleInf (0 < x))"
| "jdiv NaN b = NaN"
| "jdiv a NaN = NaN"
| "jdiv (Num x) PosInf = Num 0"
| "jdiv (Num x) NegInf = Num 0"
| "jdiv PosInf (Num y) = scaleInf (0 \<le> y)"
| "jdiv NegInf (Num y) = scaleInf (y < 0)"
| "jdiv PosInf b = NaN"
| "jdiv NegInf b = NaN"

text \<open>\<^verbatim>\<open>Math.max(a, b)\<close> and \<^verbatim>\<open>Math.min(a, b)\<close>: \<open>NaN\<close> if either argument is.\<close>

fun jmax :: "jsnum \<Rightarrow> jsnum \<Rightarrow> jsnum" where
  "jmax (Num x) (Num y) = Num (max x y)"
| "jmax NaN b = NaN"
| "jmax a NaN = NaN"
| "jmax PosInf b = PosInf"
| "jmax a PosInf = PosInf"
| "jmax NegInf b = b"
| "jmax a NegInf = a"

fun jmin :: "jsnum \<Rightarrow> jsnum \<Rightarrow> jsnum" where
  "jmin (Num x) (Num y) = Num (min x y)"
| "jmin NaN b = NaN"
| "jmin a NaN = NaN"
| "jmin NegInf b = NegInf"
| "jmin a NegInf = NegInf"
| "jmin PosInf b = b"
| "jmin a PosInf = a"

text \<open>
  \<^verbatim>\<open>Math.round(x)\<close> is \<open>\<lfloor>x + 1/2\<rfloor>\<close>: ties go up. The special values are returned
  as they are.
\<close>

fun jround :: "jsnum \<Rightarrow> jsnum" where
  "jround (Num x) = Num (of_int \<lfloor>x + 1 / 2\<rfloor>)"
| "jround a = a"

text \<open>Truthiness of a number, as \<^verbatim>\<open>a || b\<close> tests it: \<open>0\<close> and \<open>NaN\<close> are falsy.\<close>

fun truthyNum :: "jsnum \<Rightarrow> bool" where
  "truthyNum (Num x) = (x \<noteq> 0)"
| "truthyNum NaN = False"
| "truthyNum a = True"

definition orElse :: "jsnum \<Rightarrow> jsnum \<Rightarrow> jsnum" where
  "orElse a b = (if truthyNum a then a else b)"

text \<open>
  \<^verbatim>\<open>const round = (value) => Math.round(value * 10) / 10;\<close>
  (the same local helper in both branches of \<open>runWhatIf\<close>).
\<close>

definition round1 :: "jsnum \<Rightarrow> jsnum" where
  "round1 v = jdiv (jround (jmul v (Num 10))) (Num 10)"

section \<open>Dates\<close>

text \<open>
  A \<open>Date\<close> is its time value: milliseconds since 1970-01-01T00:00:00Z, an integer.
  The functions below are the day and year arithmetic of ECMA-262 (section "Time Values
  and Time Range"). Time values are assumed to lie in the range a \<open>Date\<close> can hold, so
  the invalid date is not a value of the model.
\<close>

type_synonym date = int

definition msPerDay :: int where
  "msPerDay = 86400000"

definition Day :: "int \<Rightarrow> int" where
  "Day t = t div msPerDay"

definition DaysInYear :: "int \<Rightarrow> int" where
  "DaysInYear y =
     (if y mod 4 \<noteq> 0 then 365 else if y mod 100 \<noteq> 0 then 366
      else if y mod 400 \<noteq> 0 then 365 else 366)"

definition DayFromYear :: "int \<Rightarrow> int" where
  "DayFromYear y =
     365 * (y - 1970) + (y - 1969) div 4 - (y - 1901) div 100 + (y - 1601) div 400"

text \<open>
  ECMA-262 specifies \<open>YearFromTime(t)\<close> as the largest year \<open>y\<close> with
  \<open>TimeFromYear(y) \<le> t\<close>. Here it is computed from an estimate (400 years are 146097
  days) that is off by at most one; lemma \<open>YearFromDay_bounds\<close> below shows that the
  result is the specified year.
\<close>

definition YearFromDay :: "int \<Rightarrow> int" where
  "YearFromDay n =
     (let y = 1970 + (400 * n) div 146097
      in if n < DayFromYear y then y - 1
         else if DayFromYear (y + 1) \<le> n then y + 1 else y)"

definition YearFromTime :: "int \<Rightarrow> int" where
  "YearFromTime t = YearFromDay (Day t)"

definition InLeapYear :: "int \<Rightarrow> bool" where
  "InLeapYear t = (DaysInYear (YearFromTime t) = 366)"

definition DayWithinYear :: "int \<Rightarrow> int" where
  "DayWithinYear t = Day t - DayFromYear (YearFromTime t)"

text \<open>
  The first day (within its year) of month \<open>mn\<close> (0 to 11); \<open>leap\<close> adds the 29th of
  February to the months after it.
\<close>

definition monthStart :: "bool \<Rightarrow> int \<Rightarrow> int" where
  "monthStart leap mn =
     [0, 31, 59, 90, 120, 151, 181, 212, 243, 273, 304, 334] ! nat mn
     + (if leap \<and> 2 \<le> mn then 1 else 0)"

definition MonthFromTime :: "int \<Rightarrow> int" where
  "MonthFromTime t =
     (let leap = InLeapYear t; n = DayWithinYear t
      in int (length (filter (\<lambda>mn. monthStart leap mn \<le> n) [1, 2, 3, 4, 5, 6, 7, 8, 9, 10, 11])))"

definition DateFromTime :: "int \<Rightarrow> int" where
  "DateFromTime t = DayWithinYear t - monthStart (InLeapYear t) (MonthFromTime t) + 1"

text \<open>
  \<open>MakeDay(year, month, date)\<close>: the month may lie outside 0 to 11 and carries into the
  year; the day of the month is added as an offset, so it may overflow the month too.
\<close>

definition MakeDay :: "int \<Rightarrow> int \<Rightarrow> int \<Rightarrow> int" where
  "MakeDay year month dt =
     (let ym = year + month div 12; mn = month mod 12
      in DayFromYear ym + monthStart (DaysInYear ym = 366) mn + dt - 1)"

text \<open>
  \<open>MakeFullYear(y)\<close>, which \<^verbatim>\<open>Date.UTC\<close> applies to its year argument (ECMA-262,
  "Date.UTC"): a year from 0 to 99 is read as the year \<open>1900 + y\<close>, any other year as
  it is.
\<close>

definition MakeFullYear :: "int \<Rightarrow> int" where
  "MakeFullYear y = (if 0 \<le> y \<and> y \<le> 99 then 1900 + y else y)"

definition DateUTC :: "int \<Rightarrow> int \<Rightarrow> int \<Rightarrow> date" where
  "DateUTC year month dt = MakeDay (MakeFullYear year) month dt * msPerDay"

definition getUTCFullYear :: "date \<Rightarrow> int" where
  "getUTCFullYear t = YearFromTime t"

definition getUTCMonth :: "date \<Rightarrow> int" where
  "getUTCMonth t = MonthFromTime t"

definition getUTCDate :: "date \<Rightarrow> int" where
  "getUTCDate t = DateFromTime t"

text \<open>
  \<^verbatim>\<open>const makeUTCDate = (year, month, day) => new Date(Date.UTC(year, month - 1, day));\<close>
\<close>

definition makeUTCDate :: "int \<Rightarrow> int \<Rightarrow> int \<Rightarrow> date" where
  "makeUTCDate year month day = DateUTC year (month - 1) day"

section \<open>Date labels\<close>

text \<open>
  A date label is what a point's \<open>date\<close> field holds: a string, or nothing
  (\<open>undefined\<close> or \<open>null\<close>). A label is falsy when it is absent or the empty string.
\<close>

datatype label = Absent | Text string

fun truthy :: "label \<Rightarrow> bool" where
  "truthy Absent = False"
| "truthy (Text s) = (s \<noteq> [])"

definition isDigit :: "char \<Rightarrow> bool" where
  "isDigit c = (48 \<le> (of_char c :: nat) \<and> (of_char c :: nat) \<le> 57)"

text \<open>\<^verbatim>\<open>Number\<close> on a string of decimal digits.\<close>

definition digitsToInt :: "string \<Rightarrow> int" where
  "digitsToInt s = foldl (\<lambda>acc c. 10 * acc + (int (of_char c) - 48)) 0 s"

text \<open>The test \<^verbatim>\<open>/^\d{4}-\d{2}-\d{2}$/.test(value)\<close>.\<close>

fun isIsoDate :: "string \<Rightarrow> bool" where
  "isIsoDate [y1, y2, y3, y4, s1, m1, m2, s2, d1, d2] =
     (isDigit y1 \<and> isDigit y2 \<and> isDigit y3 \<and> isDigit y4 \<and> s1 = CHR ''-''
      \<and> isDigit m1 \<and> isDigit m2 \<and> s2 = CHR ''-'' \<and> isDigit d1 \<and> isDigit d2)"
| "isIsoDate s = False"

text \<open>
  \<^verbatim>\<open>
  const toUTCDate = (value) => {
    if (!value) return null;
    if (value instanceof Date) { ... }
    if (typeof value === "string" && /^\d{4}-\d{2}-\d{2}$/.test(value)) {
      const [year, month, day] = value.split("-").map(Number);
      return new Date(Date.UTC(year, month - 1, day));
    }
    const parsed = new Date(value);
    if (Number.isNaN(parsed.getTime())) return null;
    return new Date(Date.UTC(parsed.getUTCFullYear(), parsed.getUTCMonth(), parsed.getUTCDate()));
  };
  \<close>
  Labels are strings, so the \<open>instanceof Date\<close> branch is not taken. What
  \<^verbatim>\<open>new Date(value)\<close> makes of a string that is not of the form above is left to the host
  by ECMA-262: it is the parameter \<open>parse\<close>, with \<open>None\<close> for an invalid date.
\<close>

definition toUTCDate :: "(string \<Rightarrow> date option) \<Rightarrow> label \<Rightarrow> date option" where
  "toUTCDate parse v =
     (case v of
        Absent \<Rightarrow> None
      | Text s \<Rightarrow>
          if s = [] then None
          else if isIsoDate s then
            Some (DateUTC (digitsToInt (take 4 s)) (digitsToInt (take 2 (drop 5 s)) - 1)
                          (digitsToInt (take 2 (drop 8 s))))
          else (case parse s of
                  None \<Rightarrow> None
                | Some parsed \<Rightarrow>
                    Some (DateUTC (getUTCFullYear parsed) (getUTCMonth parsed) (getUTCDate parsed))))"

text \<open>
  \<^verbatim>\<open>
  const dates = dateLabels.map((label, index) => {
    const parsed = toUTCDate(label);
    if (parsed) return parsed;
    const fallback = new Date(Date.UTC(new Date().getUTCFullYear(), 0, 1));
    return new Date(fallback.getTime() + (index + 1) * 86400000);
  });
  \<close>
  The clock reading \<^verbatim>\<open>new Date()\<close> is the parameter \<open>now\<close>.
\<close>

definition labelDate :: "date \<Rightarrow> (string \<Rightarrow> date option) \<Rightarrow> label \<Rightarrow> nat \<Rightarrow> date" where
  "labelDate now parse lbl index =
     (case toUTCDate parse lbl of
        Some parsed \<Rightarrow> parsed
      | None \<Rightarrow> DateUTC (getUTCFullYear now) 0 1 + (int index + 1) * 86400000)"

definition labelDates :: "date \<Rightarrow> (string \<Rightarrow> date option) \<Rightarrow> label list \<Rightarrow> date list" where
  "labelDates now parse dateLabels =
     map (\<lambda>(index, lbl). labelDate now parse lbl index) (enumerate 0 dateLabels)"

text \<open>
  \<^verbatim>\<open>const formatDate = (value) => value.toISOString().slice(0, 10);\<close>
  The ISO string starts with the year in four digits, or with a sign and six digits
  when the year is outside 0 to 9999, then \<open>-MM-DD\<close>; the first ten characters are kept.
\<close>

fun pad :: "nat \<Rightarrow> nat \<Rightarrow> string" where
  "pad 0 k = []"
| "pad (Suc w) k = pad w (k div 10) @ [''0123456789'' ! (k mod 10)]"

definition isoYear :: "int \<Rightarrow> string" where
  "isoYear y =
     (if 0 \<le> y \<and> y \<le> 9999 then pad 4 (nat y)
      else (if 0 \<le> y then ''+'' else ''-'') @ pad 6 (nat \<bar>y\<bar>))"

definition formatDate :: "date \<Rightarrow> string" where
  "formatDate v =
     take 10 (isoYear (YearFromTime v) @ ''-'' @ pad 2 (nat (MonthFromTime v + 1))
              @ ''-'' @ pad 2 (nat (DateFromTime v)))"

section \<open>Resolving the dates of a point series\<close>

record point =
  date :: label
  forecast :: jsnum
  lower :: jsnum
  upper :: jsnum

text \<open>
  \<^verbatim>\<open>
  const buildDailyLabels = (count) => {
    const start = new Date();
    return Array.from({ length: count }, (_, index) =>
      formatDate(new Date(start.getTime() + (index + 1) * 86400000))
    );
  };
  \<close>
\<close>

definition buildDailyLabels :: "date \<Rightarrow> nat \<Rightarrow> label list" where
  "buildDailyLabels start count =
     map (\<lambda>index. Text (formatDate (start + (int index + 1) * 86400000))) [0..<count]"

text \<open>
  \<^verbatim>\<open>
  const resolvePointDates = (points) => {
    if (!Array.isArray(points) || points.length === 0) return [];
    const raw = points.map((point) => point.date);
    const unique = new Set(raw.filter(Boolean));
    if (unique.size <= 1 || raw.some((value) => !value)) {
      return buildDailyLabels(points.length);
    }
    return raw;
  };
  \<close>
\<close>

definition resolvePointDates :: "date \<Rightarrow> point list \<Rightarrow> label list" where
  "resolvePointDates now points =
     (if points = [] then []
      else let raw = map date points;
               unique = set (filter truthy raw)
           in if card unique \<le> 1 \<or> list_ex (\<lambda>v. \<not> truthy v) raw
              then buildDailyLabels now (length points)
              else raw)"

section \<open>EventProfileCatalog\<close>

datatype kind = Spike | Dip | Ramp | Step

text \<open>A month and a day, the \<^verbatim>\<open>{ m, d }\<close> objects of the catalog.\<close>

record month_day =
  md_m :: int
  md_d :: int

record event_window =
  w_start :: month_day
  w_end :: month_day

record event_profile =
  kind :: kind
  avgImpact :: real
  peakImpact :: real
  window :: "event_window option"
  center :: "month_day option"
  widthDays :: "real option"

definition md :: "int \<Rightarrow> int \<Rightarrow> month_day" where
  "md mo dy = \<lparr>md_m = mo, md_d = dy\<rparr>"

definition windowed :: "kind \<Rightarrow> real \<Rightarrow> real \<Rightarrow> month_day \<Rightarrow> month_day \<Rightarrow> event_profile" where
  "windowed k avg peak s e =
     \<lparr>kind = k, avgImpact = avg, peakImpact = peak,
      window = Some \<lparr>w_start = s, w_end = e\<rparr>, center = None, widthDays = None\<rparr>"

definition spike :: "real \<Rightarrow> real \<Rightarrow> month_day option \<Rightarrow> real \<Rightarrow> event_profile" where
  "spike avg peak c width =
     \<lparr>kind = Spike, avgImpact = avg, peakImpact = peak,
      window = None, center = c, widthDays = Some width\<rparr>"

text \<open>The shipped table \<^verbatim>\<open>EVENT_PROFILES\<close>, in the order of the source.\<close>

definition EVENT_PROFILES_list :: "(string \<times> event_profile) list" where
  "EVENT_PROFILES_list =
     [(''Monsoon Month (Jun-Sep)'', windowed Dip (- 0.12) (- 0.25) (md 6 15) (md 9 15)),
      (''Diwali Festival (Oct-Nov)'', spike 0.18 0.32 (Some (md 10 25)) 24),
      (''Construction Boom (Feb-May)'', windowed Ramp 0.12 0.28 (md 2 10) (md 5 31)),
      (''Summer Paint Push (Mar-Apr)'', windowed Step 0.08 0.18 (md 3 15) (md 4 30)),
      (''Year-End Promo (Dec)'', windowed Step 0.07 0.18 (md 12 1) (md 12 31)),
      (''Winter Slowdown (Jan)'', windowed Dip (- 0.06) (- 0.12) (md 1 1) (md 1 31)),
      (''Regional Expo (Sep)'', spike 0.05 0.12 (Some (md 9 10)) 12),
      (''Dealer Anniversary (Variable)'', spike 0.04 0.1 None 10)]"

text \<open>
  A catalog holds the own properties of the table: a finite map from event tags to
  profiles. The functions below take the catalog as a parameter; the program runs them
  on \<open>EVENT_PROFILES\<close>.
\<close>

type_synonym catalog = "string \<Rightarrow> event_profile option"

definition EVENT_PROFILES :: catalog where
  "EVENT_PROFILES = map_of EVENT_PROFILES_list"

text \<open>
  The table is a plain object, so the lookup \<^verbatim>\<open>EVENT_PROFILES[eventTag]\<close> also finds the
  properties that every object inherits from \<^verbatim>\<open>Object.prototype\<close>. Their values are
  functions, or the prototype object itself for \<^verbatim>\<open>__proto__\<close>: truthy values without a
  \<open>kind\<close>, a \<open>window\<close> or a \<open>center\<close>. The result of the lookup is an own profile, such
  an inherited value, or \<open>None\<close> for \<open>undefined\<close>.
\<close>

definition objectPrototypeKeys :: "string list" where
  "objectPrototypeKeys =
     [''constructor'', ''hasOwnProperty'', ''isPrototypeOf'', ''propertyIsEnumerable'',
      ''toLocaleString'', ''toString'', ''valueOf'', ''__proto__'',
      ''__defineGetter__'', ''__defineSetter__'', ''__lookupGetter__'', ''__lookupSetter__'']"

datatype entry = Profile event_profile | Inherited

definition getProperty :: "catalog \<Rightarrow> string \<Rightarrow> entry option" where
  "getProperty profiles key =
     (case profiles key of
        Some profile \<Rightarrow> Some (Profile profile)
      | None \<Rightarrow> if key \<in> set objectPrototypeKeys then Some Inherited else None)"

section \<open>WindowResolver, SpikeKernel and CurveBuilder\<close>

text \<open>The simulation context: the selected dealer, if any, with its numeric id.\<close>

record dealer =
  dealer_id :: int

text \<open>
  \<^verbatim>\<open>
  const resolveWindow = (date) => {
    if (!profile.window) return null;
    const year = date.getUTCFullYear();
    let start = makeUTCDate(year, profile.window.start.m, profile.window.start.d);
    let end = makeUTCDate(year, profile.window.end.m, profile.window.end.d);
    if (end < start) {
      if (date <= end) {
        start = makeUTCDate(year - 1, profile.window.start.m, profile.window.start.d);
      } else {
        end = makeUTCDate(year + 1, profile.window.end.m, profile.window.end.d);
      }
    }
    return { start, end };
  };
  \<close>
  The result is the pair \<open>(start, end)\<close>.
\<close>

definition resolveWindow :: "event_profile \<Rightarrow> date \<Rightarrow> (date \<times> date) option" where
  "resolveWindow profile dt =
     (case window profile of
        None \<Rightarrow> None
      | Some w \<Rightarrow>
          let year = getUTCFullYear dt;
              start = makeUTCDate year (md_m (w_start w)) (md_d (w_start w));
              end' = makeUTCDate year (md_m (w_end w)) (md_d (w_end w))
          in if end' < start then
               (if dt \<le> end'
                then Some (makeUTCDate (year - 1) (md_m (w_start w)) (md_d (w_start w)), end')
                else Some (start, makeUTCDate (year + 1) (md_m (w_end w)) (md_d (w_end w))))
             else Some (start, end'))"

text \<open>
  \<^verbatim>\<open>
  const resolveCenter = (date) => {
    if (profile.center) {
      return makeUTCDate(date.getUTCFullYear(), profile.center.m, profile.center.d);
    }
    if (eventTag.includes("Dealer Anniversary") && context.dealer) {
      const month = ((context.dealer.id || 1) % 12) + 1;
      return makeUTCDate(date.getUTCFullYear(), month, 15);
    }
    return null;
  };
  \<close>
  The remainder \<^verbatim>\<open>%\<close> takes the sign of the dividend.
\<close>

definition jsRem :: "int \<Rightarrow> int \<Rightarrow> int" where
  "jsRem a b = sgn a * (\<bar>a\<bar> mod \<bar>b\<bar>)"

definition resolveCenter :: "event_profile \<Rightarrow> string \<Rightarrow> dealer option \<Rightarrow> date \<Rightarrow> date option" where
  "resolveCenter profile eventTag ctx dt =
     (case center profile of
        Some c \<Rightarrow> Some (makeUTCDate (getUTCFullYear dt) (md_m c) (md_d c))
      | None \<Rightarrow>
          (case ctx of
             Some dl \<Rightarrow>
               if sublist ''Dealer Anniversary'' eventTag then
                 let month = jsRem (if dealer_id dl = 0 then 1 else dealer_id dl) 12 + 1
                 in Some (makeUTCDate (getUTCFullYear dt) month 15)
               else None
           | None \<Rightarrow> None))"

text \<open>
  One step of the final \<^verbatim>\<open>dates.map((date) => { ... })\<close> of \<open>buildEventMultiplier\<close>:
  \<^verbatim>\<open>
    let impact = 0;
    if (profile.kind === "spike") {
      const centerDate = resolveCenter(date);
      if (!centerDate) return 1;
      const widthDays = profile.widthDays ?? 14;
      const sigma = Math.max(3, widthDays / 2.355);
      const dist = (date.getTime() - centerDate.getTime()) / 86400000;
      impact = profile.peakImpact * Math.exp(-0.5 * (dist / sigma) ** 2);
    } else {
      const window = resolveWindow(date);
      if (!window) return 1;
      if (date < window.start || date > window.end) {
        impact = 0;
      } else {
        const t = Math.min(1, Math.max(0, (date - window.start) / (window.end - window.start)));
        if (profile.kind === "dip") {
          const dist = t - 0.5;
          impact = profile.peakImpact * (1 - Math.min(1, dist * dist * 4));
        } else if (profile.kind === "ramp") {
          impact = profile.peakImpact * t;
        } else if (profile.kind === "step") {
          impact = profile.peakImpact;
        }
      }
    }
    return 1 + impact;
  \<close>
  The two branches are \<open>spikeMultiplier\<close> and \<open>windowMultiplier\<close>.
  The membership test of the window branch, \<^verbatim>\<open>!(date < window.start || date > window.end)\<close>
  on the resolved window, is \<open>insideWindow\<close>.
  In the spike branch every divisor is a non-zero constant or \<open>sigma \<ge> 3\<close> and the
  exponential lies between \<open>0\<close> and \<open>1\<close>: the factor \<^verbatim>\<open>Math.exp(...)\<close> is written on
  the reals, and its product with the peak impact (\<open>spikeImpact\<close>) and the final sum
  are operations on numbers. In the window branch the quotient has the divisor
  \<open>end - start\<close>, which is zero for a one-day window.
\<close>

definition insideWindow :: "event_profile \<Rightarrow> date \<Rightarrow> bool" where
  "insideWindow profile dt =
     (case resolveWindow profile dt of
        None \<Rightarrow> False
      | Some (start, end') \<Rightarrow> \<not> (dt < start \<or> dt > end'))"

definition spikeSigma :: "event_profile \<Rightarrow> real" where
  "spikeSigma profile =
     max 3 ((case widthDays profile of None \<Rightarrow> 14 | Some w \<Rightarrow> w) / 2.355)"

definition spikeDist :: "date \<Rightarrow> date \<Rightarrow> real" where
  "spikeDist dt centerDate = real_of_int (dt - centerDate) / 86400000"

definition windowT :: "date \<Rightarrow> date \<Rightarrow> date \<Rightarrow> jsnum" where
  "windowT dt start end' =
     jmin (Num 1) (jmax (Num 0)
       (jdiv (Num (real_of_int (dt - start))) (Num (real_of_int (end' - start)))))"

definition windowImpact :: "event_profile \<Rightarrow> jsnum \<Rightarrow> jsnum" where
  "windowImpact profile t =
     (case kind profile of
        Dip \<Rightarrow>
          (let dist = jsub t (Num 0.5)
           in jmul (Num (peakImpact profile))
                (jsub (Num 1) (jmin (Num 1) (jmul (jmul dist dist) (Num 4)))))
      | Ramp \<Rightarrow> jmul (Num (peakImpact profile)) t
      | Step \<Rightarrow> Num (peakImpact profile)
      | Spike \<Rightarrow> Num 0)"

definition spikeImpact :: "event_profile \<Rightarrow> date \<Rightarrow> date \<Rightarrow> jsnum" where
  "spikeImpact profile dt centerDate =
     (let sigma = spikeSigma profile;
          dist = spikeDist dt centerDate
      in jmul (Num (peakImpact profile)) (Num (exp (- 0.5 * (dist / sigma) ^ 2))))"

definition spikeMultiplier :: "event_profile \<Rightarrow> string \<Rightarrow> dealer option \<Rightarrow> date \<Rightarrow> jsnum" where
  "spikeMultiplier profile eventTag ctx dt =
     (case resolveCenter profile eventTag ctx dt of
        None \<Rightarrow> Num 1
      | Some centerDate \<Rightarrow> jadd (Num 1) (spikeImpact profile dt centerDate))"

definition windowMultiplier :: "event_profile \<Rightarrow> date \<Rightarrow> jsnum" where
  "windowMultiplier profile dt =
     (case resolveWindow profile dt of
        None \<Rightarrow> Num 1
      | Some (start, end') \<Rightarrow>
          if dt < start \<or> dt > end' then jadd (Num 1) (Num 0)
          else jadd (Num 1) (windowImpact profile (windowT dt start end')))"

definition eventMultiplier :: "event_profile \<Rightarrow> string \<Rightarrow> dealer option \<Rightarrow> date \<Rightarrow> jsnum" where
  "eventMultiplier profile eventTag ctx dt =
     (if kind profile = Spike then spikeMultiplier profile eventTag ctx dt
      else windowMultiplier profile dt)"

text \<open>
  \<^verbatim>\<open>
  const buildEventMultiplier = (eventTag, dateLabels, context = {}) => {
    const profile = EVENT_PROFILES[eventTag];
    if (!profile || !Array.isArray(dateLabels) || dateLabels.length === 0) {
      return [];
    }
    ...
    return dates.map((date) => { ... });
  };
  \<close>
\<close>

text \<open>
  The multiplier of one date for the value the lookup returned. For an inherited value
  \<^verbatim>\<open>profile.kind === "spike"\<close> is false and \<^verbatim>\<open>profile.window\<close> is \<open>undefined\<close>, so
  \<open>resolveWindow\<close> returns \<open>null\<close> and the multiplier is \<open>1\<close>.
\<close>

fun entryMultiplier :: "entry \<Rightarrow> string \<Rightarrow> dealer option \<Rightarrow> date \<Rightarrow> jsnum" where
  "entryMultiplier (Profile profile) eventTag ctx dt = eventMultiplier profile eventTag ctx dt"
| "entryMultiplier Inherited eventTag ctx dt = Num 1"

definition buildEventMultiplier ::
  "catalog \<Rightarrow> date \<Rightarrow> (string \<Rightarrow> date option) \<Rightarrow> string \<Rightarrow> label list \<Rightarrow> dealer option
   \<Rightarrow> jsnum list" where
  "buildEventMultiplier profiles now parse eventTag dateLabels ctx =
     (case getProperty profiles eventTag of
        None \<Rightarrow> []
      | Some profile \<Rightarrow>
          if dateLabels = [] then []
          else map (entryMultiplier profile eventTag ctx) (labelDates now parse dateLabels))"

section \<open>WhatIfComposer\<close>

text \<open>
  \<^verbatim>\<open>array[index] ?? 1\<close>: the element, or \<open>1\<close> when the index is past the end.
\<close>

definition nthOr1 :: "jsnum list \<Rightarrow> nat \<Rightarrow> jsnum" where
  "nthOr1 xs index = (if index < length xs then xs ! index else Num 1)"

text \<open>
  \<^verbatim>\<open>dates[index] ?? point.date\<close>: the resolved label, or the point's own when the
  resolved one is missing.
\<close>

definition labelOr :: "label list \<Rightarrow> nat \<Rightarrow> label \<Rightarrow> label" where
  "labelOr xs index dflt =
     (if index < length xs then (case xs ! index of Absent \<Rightarrow> dflt | Text s \<Rightarrow> Text s)
      else dflt)"

definition scalePoint :: "label list \<Rightarrow> jsnum \<Rightarrow> nat \<Rightarrow> point \<Rightarrow> point" where
  "scalePoint dates combined index pt =
     pt\<lparr>date := labelOr dates index (date pt),
        forecast := round1 (jmul (forecast pt) combined),
        lower := round1 (jmul (lower pt) combined),
        upper := round1 (jmul (upper pt) combined)\<rparr>"

text \<open>
  The direct policy: the demo branch of \<open>runWhatIf\<close>, on the locally built baseline
  \<open>base.points\<close>.
  \<^verbatim>\<open>
      const multiplier = 1 + whatIfPercent / 100;
      const baseDates = resolvePointDates(base.points);
      const eventCurve = buildEventMultiplier(whatIfEvent, baseDates, { dealer: selectedDealer });
      const round = (value) => Math.round(value * 10) / 10;
      const points = base.points.map((point, index) => {
        const eventMultiplier = eventCurve[index] ?? 1;
        const combined = multiplier * eventMultiplier;
        return { ...point, date: baseDates[index] ?? point.date,
          forecast: round(point.forecast * combined),
          lower: round(point.lower * combined),
          upper: round(point.upper * combined) };
      });
  \<close>
\<close>

definition whatIfDirect ::
  "catalog \<Rightarrow> date \<Rightarrow> (string \<Rightarrow> date option) \<Rightarrow> real \<Rightarrow> string \<Rightarrow> dealer option
   \<Rightarrow> point list \<Rightarrow> point list" where
  "whatIfDirect profiles now parse whatIfPercent whatIfEvent selectedDealer basePoints =
     (let multiplier = jadd (Num 1) (jdiv (Num whatIfPercent) (Num 100));
          baseDates = resolvePointDates now basePoints;
          eventCurve = buildEventMultiplier profiles now parse whatIfEvent baseDates selectedDealer
      in map (\<lambda>(index, pt).
                scalePoint baseDates (jmul multiplier (nthOr1 eventCurve index)) index pt)
             (enumerate 0 basePoints))"

text \<open>
  The normalized policy: the branch of \<open>runWhatIf\<close> that adjusts the points
  \<open>data.points\<close> returned by the forecast service.
  \<^verbatim>\<open>
      const profile = EVENT_PROFILES[whatIfEvent];
      if (profile && Array.isArray(data.points)) {
        const dates = resolvePointDates(data.points);
        const curve = buildEventMultiplier(whatIfEvent, dates, { dealer: selectedDealer });
        const avgCurve =
          curve.reduce((sum, value) => sum + value, 0) / Math.max(1, curve.length);
        const normalized = curve.map((value) => value / (avgCurve || 1));
        const round = (value) => Math.round(value * 10) / 10;
        const points = data.points.map((point, index) => {
          const multiplier = normalized[index] ?? 1;
          return { ...point, date: dates[index] ?? point.date,
            forecast: round(point.forecast * multiplier), ... };
        });
        ...
      } else {
        setWhatIfForecast(data);
      }
  \<close>
\<close>

definition avgCurve :: "jsnum list \<Rightarrow> jsnum" where
  "avgCurve curve =
     jdiv (foldl jadd (Num 0) curve) (Num (max 1 (real (length curve))))"

definition normalizeCurve :: "jsnum list \<Rightarrow> jsnum list" where
  "normalizeCurve curve = map (\<lambda>v. jdiv v (orElse (avgCurve curve) (Num 1))) curve"

definition composeNormalized :: "label list \<Rightarrow> jsnum list \<Rightarrow> point list \<Rightarrow> point list" where
  "composeNormalized dates curve dataPoints =
     (let normalized = normalizeCurve curve
      in map (\<lambda>(index, pt). scalePoint dates (nthOr1 normalized index) index pt)
             (enumerate 0 dataPoints))"

definition whatIfNormalized ::
  "catalog \<Rightarrow> date \<Rightarrow> (string \<Rightarrow> date option) \<Rightarrow> string \<Rightarrow> dealer option
   \<Rightarrow> point list \<Rightarrow> point list" where
  "whatIfNormalized profiles now parse whatIfEvent selectedDealer dataPoints =
     (case getProperty profiles whatIfEvent of
        None \<Rightarrow> dataPoints
      | Some profile \<Rightarrow>
          let dates = resolvePointDates now dataPoints;
              curve = buildEventMultiplier profiles now parse whatIfEvent dates selectedDealer
          in composeNormalized dates curve dataPoints)"

text \<open>
  A point whose three values are finite numbers; a number between two bounds; a point
  whose three values are finite and at most \<open>b\<close> in magnitude.
\<close>

definition finitePoint :: "point \<Rightarrow> bool" where
  "finitePoint pt = (isFinite (forecast pt) \<and> isFinite (lower pt) \<and> isFinite (upper pt))"

fun between :: "real \<Rightarrow> real \<Rightarrow> jsnum \<Rightarrow> bool" where
  "between lo hi (Num x) = (lo \<le> x \<and> x \<le> hi)"
| "between lo hi a = False"

definition boundedPoint :: "real \<Rightarrow> point \<Rightarrow> bool" where
  "boundedPoint b pt =
     (between (- b) b (forecast pt) \<and> between (- b) b (lower pt) \<and> between (- b) b (upper pt))"

section \<open>Conditions on a label sequence\<close>

text \<open>
  The condition as the specification words it: the label sequence is "entirely
  absent/duplicated/blank", that is, every label is absent or blank, or all labels are
  one and the same value.
\<close>

definition entirelyBlankOrDuplicated :: "label list \<Rightarrow> bool" where
  "entirelyBlankOrDuplicated raw =
     (list_all (\<lambda>v. \<not> truthy v) raw \<or> length (remdups raw) \<le> 1)"

text \<open>
  The condition the code tests, in the same terms: some label is absent or blank, or all
  labels are one and the same value.
\<close>

definition someBlankOrDuplicated :: "label list \<Rightarrow> bool" where
  "someBlankOrDuplicated raw =
     (list_ex (\<lambda>v. \<not> truthy v) raw \<or> length (remdups raw) \<le> 1)"

section \<open>SeriesDownsampler\<close>

text \<open>
  \<^verbatim>\<open>
  const downsamplePoints = (points, maxPoints) => {
    if (!Array.isArray(points) || points.length <= maxPoints) return points;
    const step = Math.ceil(points.length / maxPoints);
    return points.filter((_, index) => index % step === 0 || index === points.length - 1);
  };
  \<close>
  The point budget is a natural number (the callers pass 30 or 60). For a budget of
  \<open>0\<close> the quotient \<open>length / 0\<close> is \<open>Infinity\<close>, and \<open>index % Infinity\<close> is
  \<open>index\<close> itself, so only index \<open>0\<close> passes the stride test.
\<close>

definition ceilDiv :: "nat \<Rightarrow> nat \<Rightarrow> nat" where
  "ceilDiv a b = (a + b - 1) div b"

definition keepIndex :: "nat \<Rightarrow> nat \<Rightarrow> nat \<Rightarrow> bool" where
  "keepIndex len maxPoints index =
     ((if maxPoints = 0 then index = 0 else index mod ceilDiv len maxPoints = 0)
      \<or> index = len - 1)"

definition downsamplePoints :: "'a list \<Rightarrow> nat \<Rightarrow> 'a list" where
  "downsamplePoints points maxPoints =
     (if length points \<le> maxPoints then points
      else map snd (filter (\<lambda>(index, _). keepIndex (length points) maxPoints index)
                           (enumerate 0 points)))"

section \<open>Properties of the arithmetic\<close>

text \<open>
  A result below the overflow threshold is the exact one. The threshold lies between
  \<open>10\<^sup>3\<^sup>0\<^sup>8\<close> and \<open>10\<^sup>3\<^sup>0\<^sup>9\<close>.
\<close>

lemma fin_Num: "\<bar>x\<bar> < overflowAt \<Longrightarrow> fin x = Num x"
  by (auto simp: fin_def)



lemma overflowAt_large: "2 ^ 64 < overflowAt"
  by (simp add: overflowAt_def)

lemma fin_small: "\<bar>x\<bar> \<le> 2 ^ 64 \<Longrightarrow> fin x = Num x"
  using overflowAt_large by (intro fin_Num) simp

declare jadd.simps(1) [simp del] jmul.simps(1) [simp del] jdiv.simps(1) [simp del]

lemma jmul_Num: "\<bar>x * y\<bar> < overflowAt \<Longrightarrow> jmul (Num x) (Num y) = Num (x * y)"
  by (simp add: jmul.simps(1) fin_Num)

lemma jdiv_Num: "y \<noteq> 0 \<Longrightarrow> \<bar>x / y\<bar> < overflowAt \<Longrightarrow> jdiv (Num x) (Num y) = Num (x / y)"
  by (simp add: jdiv.simps(1) fin_Num)

lemma jmul_small: "\<bar>x * y\<bar> \<le> 2 ^ 64 \<Longrightarrow> jmul (Num x) (Num y) = Num (x * y)"
  using overflowAt_large by (intro jmul_Num) simp

lemma jdiv_small: "y \<noteq> 0 \<Longrightarrow> \<bar>x / y\<bar> \<le> 2 ^ 64 \<Longrightarrow> jdiv (Num x) (Num y) = Num (x / y)"
  using overflowAt_large by (intro jdiv_Num) simp_all


text \<open>
  The binade \<open>e\<close> of a number \<open>x \<noteq> 0\<close> satisfies \<open>2\<^sup>e \<le> \<bar>x\<bar> < 2\<^sup>e\<^sup>+\<^sup>1\<close>. So a number absorbs
  only what is at least \<open>2\<^sup>5\<^sup>3\<close> times smaller, and sums of numbers of like magnitude are
  the exact ones.
\<close>

lemma binade_one: "binade 1 = 0"
  by (simp add: binade_def bitlen_alt_def)

lemma pow2_le_floor:
  assumes "(2::int) ^ k \<le> \<lfloor>a\<rfloor>"
  shows "(2::real) ^ k \<le> a"
proof -
  have "real_of_int (2 ^ k) \<le> real_of_int \<lfloor>a\<rfloor>"
    using assms by (simp only: of_int_le_iff)
  then have "(2::real) ^ k \<le> real_of_int \<lfloor>a\<rfloor>"
    by (simp only: of_int_power of_int_numeral)
  also have "\<dots> \<le> a" by (rule of_int_floor_le)
  finally show ?thesis .
qed

lemma floor_less_pow2:
  assumes "\<lfloor>a\<rfloor> < (2::int) ^ k"
  shows "a \<le> (2::real) ^ k"
proof -
  have "\<lfloor>a\<rfloor> + 1 \<le> 2 ^ k" using assms by simp
  then have "real_of_int (\<lfloor>a\<rfloor> + 1) \<le> real_of_int (2 ^ k)"
    by (simp only: of_int_le_iff)
  then have "real_of_int (\<lfloor>a\<rfloor> + 1) \<le> (2::real) ^ k"
    by (simp only: of_int_power of_int_numeral)
  moreover have "a \<le> real_of_int (\<lfloor>a\<rfloor> + 1)" by linarith
  ultimately show ?thesis by linarith
qed

lemma binade_lower:
  assumes "x \<noteq> 0"
  shows "2 powi binade x \<le> \<bar>x\<bar>"
proof (cases "1 \<le> \<bar>x\<bar>")
  case True
  then have n: "0 < \<lfloor>\<bar>x\<bar>\<rfloor>" by linarith
  have b: "1 \<le> bitlen \<lfloor>\<bar>x\<bar>\<rfloor>"
    using n bitlen_eq_zero_iff[of "\<lfloor>\<bar>x\<bar>\<rfloor>"] bitlen_nonneg[of "\<lfloor>\<bar>x\<bar>\<rfloor>"] by linarith
  have "(2::int) ^ nat (bitlen \<lfloor>\<bar>x\<bar>\<rfloor> - 1) \<le> \<lfloor>\<bar>x\<bar>\<rfloor>"
    using bitlen_bounds[OF n] by simp
  then have "(2::real) ^ nat (bitlen \<lfloor>\<bar>x\<bar>\<rfloor> - 1) \<le> \<bar>x\<bar>"
    by (rule pow2_le_floor)
  then show ?thesis using True b by (simp add: binade_def power_int_def)
next
  case False
  define r where "r = 1 / \<bar>x\<bar>"
  have x: "0 < \<bar>x\<bar>" "\<bar>x\<bar> < 1" using assms False by simp_all
  have r1: "1 < r" using x by (simp add: r_def)
  have xr: "\<bar>x\<bar> = 1 / r" using x by (simp add: r_def)
  have n: "0 < \<lfloor>r\<rfloor>" using r1 by linarith
  define b where "b = bitlen \<lfloor>r\<rfloor>"
  have b1: "1 \<le> b"
    using n bitlen_eq_zero_iff[of "\<lfloor>r\<rfloor>"] bitlen_nonneg[of "\<lfloor>r\<rfloor>"]
    unfolding b_def by linarith
  show ?thesis
  proof (cases "r = 2 ^ nat (b - 1)")
    case True
    then have "binade x = 1 - b" using False by (simp add: binade_def r_def b_def)
    moreover have "(2::real) powi (1 - b) = 1 / 2 ^ nat (b - 1)"
      using b1 by (simp add: power_int_def field_simps)
    ultimately show ?thesis using True xr by simp
  next
    case F: False
    then have e: "binade x = - b" using False by (simp add: binade_def r_def b_def)
    have "\<lfloor>r\<rfloor> < 2 ^ nat b" using bitlen_bounds[OF n] by (simp add: b_def)
    then have "r \<le> 2 ^ nat b" by (rule floor_less_pow2)
    then have "1 / 2 ^ nat b \<le> 1 / r" using r1 by (simp add: field_simps)
    moreover have "(2::real) powi (- b) = 1 / 2 ^ nat b"
      using b1 by (simp add: power_int_def field_simps)
    ultimately show ?thesis using e xr by simp
  qed
qed

lemma binade_upper:
  assumes "x \<noteq> 0"
  shows "\<bar>x\<bar> < 2 powi (binade x + 1)"
proof (cases "1 \<le> \<bar>x\<bar>")
  case True
  then have n: "0 < \<lfloor>\<bar>x\<bar>\<rfloor>" by linarith
  have b: "1 \<le> bitlen \<lfloor>\<bar>x\<bar>\<rfloor>"
    using n bitlen_eq_zero_iff[of "\<lfloor>\<bar>x\<bar>\<rfloor>"] bitlen_nonneg[of "\<lfloor>\<bar>x\<bar>\<rfloor>"] by linarith
  have "\<lfloor>\<bar>x\<bar>\<rfloor> + 1 \<le> 2 ^ nat (bitlen \<lfloor>\<bar>x\<bar>\<rfloor>)"
    using bitlen_bounds[OF n] by simp
  then have "real_of_int (\<lfloor>\<bar>x\<bar>\<rfloor> + 1) \<le> real_of_int (2 ^ nat (bitlen \<lfloor>\<bar>x\<bar>\<rfloor>))"
    by (simp only: of_int_le_iff)
  then have "real_of_int (\<lfloor>\<bar>x\<bar>\<rfloor> + 1) \<le> (2::real) ^ nat (bitlen \<lfloor>\<bar>x\<bar>\<rfloor>)"
    by (simp only: of_int_power of_int_numeral)
  moreover have "\<bar>x\<bar> < real_of_int (\<lfloor>\<bar>x\<bar>\<rfloor> + 1)" by linarith
  ultimately have "\<bar>x\<bar> < (2::real) ^ nat (bitlen \<lfloor>\<bar>x\<bar>\<rfloor>)" by linarith
  then show ?thesis using True b by (simp add: binade_def power_int_def)
next
  case False
  define r where "r = 1 / \<bar>x\<bar>"
  have x: "0 < \<bar>x\<bar>" "\<bar>x\<bar> < 1" using assms False by simp_all
  have r1: "1 < r" using x by (simp add: r_def)
  have xr: "\<bar>x\<bar> = 1 / r" using x by (simp add: r_def)
  have n: "0 < \<lfloor>r\<rfloor>" using r1 by linarith
  define b where "b = bitlen \<lfloor>r\<rfloor>"
  have b1: "1 \<le> b"
    using n bitlen_eq_zero_iff[of "\<lfloor>r\<rfloor>"] bitlen_nonneg[of "\<lfloor>r\<rfloor>"]
    unfolding b_def by linarith
  have "(2::int) ^ nat (b - 1) \<le> \<lfloor>r\<rfloor>" using bitlen_bounds[OF n] by (simp add: b_def)
  then have lo: "(2::real) ^ nat (b - 1) \<le> r" by (rule pow2_le_floor)
  show ?thesis
  proof (cases "r = 2 ^ nat (b - 1)")
    case True
    then have "binade x = 1 - b" using False by (simp add: binade_def r_def b_def)
    moreover have "(2::real) powi (1 - b) = 1 / 2 ^ nat (b - 1)"
      using b1 by (simp add: power_int_def field_simps)
    moreover have "(2::real) powi (1 - b + 1) = 2 powi (1 - b) * 2"
      using power_int_add[of "2::real" "1 - b" 1] by simp
    moreover have "(1::real) / 2 ^ nat (b - 1) < 2 / 2 ^ nat (b - 1)"
      by (rule divide_strict_right_mono) simp_all
    ultimately show ?thesis using True xr by simp
  next
    case F: False
    then have e: "binade x = - b" using False by (simp add: binade_def r_def b_def)
    have "(2::real) ^ nat (b - 1) < r" using lo F by simp
    then have "1 / r < 1 / 2 ^ nat (b - 1)"
      using r1 by (intro divide_strict_left_mono) simp_all
    moreover have "(2::real) powi (- b) = 1 / 2 ^ nat b"
      using b1 by (simp add: power_int_def field_simps)
    moreover have "(2::real) powi (- b + 1) = 2 powi (- b) * 2"
      using power_int_add[of "2::real" "- b" 1] by simp
    moreover have "nat b = Suc (nat (b - 1))" using b1 by simp
    then have "(2::real) ^ nat b = 2 * 2 ^ nat (b - 1)" by simp
    ultimately show ?thesis using e xr by simp
  qed
qed

lemma halfGap_le:
  assumes "x \<noteq> 0"
  shows "halfGap x y * 2 ^ 53 \<le> \<bar>x\<bar>"
proof -
  have a: "(2::real) powi (binade x - 53) * 2 ^ 53 = 2 powi binade x"
    by (simp add: power_int_diff)
  have b: "(2::real) powi (binade x - 54) * 2 ^ 53 \<le> 2 powi binade x"
    by (simp add: power_int_diff)
  show ?thesis
    using binade_lower[OF assms] a b by (auto simp: halfGap_def)
qed

lemma absorbs_small:
  assumes "absorbs x y"
  shows "\<bar>y\<bar> * 2 ^ 53 \<le> \<bar>x\<bar>"
proof -
  have x: "x \<noteq> 0" and y: "\<bar>y\<bar> \<le> halfGap x y"
    using assms by (auto simp: absorbs_def)
  have "\<bar>y\<bar> * 2 ^ 53 \<le> halfGap x y * 2 ^ 53" using y by simp
  then show ?thesis using halfGap_le[OF x, of y] by linarith
qed

lemma jadd_Num:
  assumes "\<bar>x\<bar> < \<bar>y\<bar> * 2 ^ 53" "\<bar>y\<bar> < \<bar>x\<bar> * 2 ^ 53" "\<bar>x + y\<bar> < overflowAt"
  shows "jadd (Num x) (Num y) = Num (x + y)"
  using assms(1,2) absorbs_small[of x y] absorbs_small[of y x] fin_Num[OF assms(3)]
  by (auto simp: jadd.simps(1))

lemma absorbs_zero: "absorbs x 0 \<longleftrightarrow> x \<noteq> 0"
  by (simp add: absorbs_def halfGap_def)

lemma not_absorbs_zero: "\<not> absorbs 0 y"
  by (simp add: absorbs_def)

lemma jadd_zero: "jadd (Num x) (Num 0) = Num x" "jadd (Num 0) (Num x) = Num x"
  using overflowAt_large by (auto simp: jadd.simps(1) absorbs_zero not_absorbs_zero fin_def)

text \<open>
  The sum \<open>1 + y\<close>: the number \<open>1\<close> absorbs \<open>y\<close> from \<open>-2\<^sup>-\<^sup>5\<^sup>4\<close> to \<open>2\<^sup>-\<^sup>5\<^sup>3\<close>.
\<close>

lemma halfGap_one: "halfGap 1 y = (if y < 0 then 1 / 2 ^ 54 else 1 / 2 ^ 53)"
  by (simp add: halfGap_def binade_one power_int_minus inverse_eq_divide)

lemma even_significand_one: "even \<lfloor>\<bar>1::real\<bar> / 2 powi (binade 1 - 52)\<rfloor>"
proof -
  have "\<bar>1::real\<bar> / 2 powi (binade 1 - 52) = real_of_int (2 ^ 52)"
    by (simp add: binade_one power_int_minus)
  then have "\<lfloor>\<bar>1::real\<bar> / 2 powi (binade 1 - 52)\<rfloor> = 2 ^ 52"
    by (simp only: floor_of_int)
  then show ?thesis by simp
qed

lemma absorbs_one:
  "absorbs 1 y \<longleftrightarrow> (if y < 0 then - y \<le> 1 / 2 ^ 54 else y \<le> 1 / 2 ^ 53)"
proof -
  have "absorbs 1 y \<longleftrightarrow> \<bar>y\<bar> \<le> halfGap 1 y"
    unfolding absorbs_def using even_significand_one by auto
  then show ?thesis by (simp add: halfGap_one abs_if)
qed

lemma jadd_one:
  assumes "\<bar>y\<bar> \<le> 1"
  shows "jadd (Num 1) (Num y)
         = (if - (1 / 2 ^ 54) \<le> y \<and> y \<le> 1 / 2 ^ 53 then Num 1 else Num (1 + y))"
proof -
  have n: "\<not> absorbs y 1" using absorbs_small[of y 1] assms by auto
  have f: "fin (1 + y) = Num (1 + y)" using assms by (intro fin_small) simp
  show ?thesis using n f by (auto simp: jadd.simps(1) absorbs_one)
qed

lemma jadd_one_cases:
  assumes "\<bar>y\<bar> \<le> 1"
  shows "jadd (Num 1) (Num y) = Num 1 \<or> jadd (Num 1) (Num y) = Num (1 + y)"
  by (simp add: jadd_one[OF assms])

lemma jadd_one_exact:
  assumes "1 / 2 ^ 53 < \<bar>y\<bar>" "\<bar>y\<bar> \<le> 1"
  shows "jadd (Num 1) (Num y) = Num (1 + y)"
  using assms by (auto simp: jadd_one)

text \<open>Rounding to one decimal.\<close>

lemma round1_Num:
  assumes "\<bar>x\<bar> * 10 + 1 < overflowAt"
  shows "round1 (Num x) = Num (real_of_int \<lfloor>x * 10 + 1 / 2\<rfloor> / 10)"
proof -
  have a: "\<bar>x * 10\<bar> < overflowAt" using assms by (simp add: abs_mult)
  have m: "jmul (Num x) (Num 10) = Num (x * 10)"
    using a by (simp add: jmul_Num)
  have "\<bar>real_of_int \<lfloor>x * 10 + 1 / 2\<rfloor>\<bar> \<le> \<bar>x * 10\<bar> + 1" by linarith
  then have "\<bar>real_of_int \<lfloor>x * 10 + 1 / 2\<rfloor> / 10\<bar> < overflowAt"
    using assms by (simp add: abs_mult)
  then have d: "jdiv (Num (real_of_int \<lfloor>x * 10 + 1 / 2\<rfloor>)) (Num 10)
                = Num (real_of_int \<lfloor>x * 10 + 1 / 2\<rfloor> / 10)"
    by (simp add: jdiv_Num)
  show ?thesis by (simp only: round1_def m jround.simps d)
qed

lemma round1_small:
  assumes "\<bar>x\<bar> \<le> 2 ^ 32"
  shows "round1 (Num x) = Num (real_of_int \<lfloor>x * 10 + 1 / 2\<rfloor> / 10)"
  using assms overflowAt_large by (intro round1_Num) simp

lemma isFinite_iff: "isFinite a = (\<exists>x. a = Num x)"
  by (cases a) auto

lemma between_iff: "between lo hi a = (\<exists>x. a = Num x \<and> lo \<le> x \<and> x \<le> hi)"
  by (cases a) auto

section \<open>Properties of the downsampler\<close>

text \<open>
  Claim C3 (length at most the budget): a series of five points with a budget of two
  gives stride \<open>\<lceil>5/2\<rceil> = 3\<close>; indices \<open>0\<close> and \<open>3\<close> pass the stride test and
  index \<open>4\<close> is kept as the last point, so three points are returned, one more than
  the budget.
\<close>

theorem downsamplePoints_over_budget:
  "downsamplePoints [10, 11, 12, 13, 14 :: nat] 2 = [10, 13, 14]
   \<and> length (downsamplePoints [10, 11, 12, 13, 14 :: nat] 2) = 3"
  by code_simp

text \<open>
  Claim C4 (idempotence): the three points returned above are again more than the
  budget of two, so a second pass with the same budget uses stride \<open>2\<close> and drops the
  middle point: downsampling twice differs from downsampling once.
\<close>

theorem downsamplePoints_not_idempotent:
  "downsamplePoints (downsamplePoints [10, 11, 12, 13, 14 :: nat] 2) 2 = [10, 14]
   \<and> downsamplePoints (downsamplePoints [10, 11, 12, 13, 14 :: nat] 2) 2
       \<noteq> downsamplePoints [10, 11, 12, 13, 14 :: nat] 2"
  by code_simp

text \<open>
  What the downsampler does guarantee: the result is a subsequence of the points, it
  keeps the first and the last point, and for a budget \<open>N \<ge> 1\<close> it has at most \<open>N + 1\<close>
  points, so that a second pass with a larger budget changes nothing.
\<close>

lemma downsamplePoints_subseq: "subseq (downsamplePoints points maxPoints) points"
proof -
  have "subseq (map snd (filter P (enumerate 0 points))) (map snd (enumerate 0 points))" for P
    by (intro subseq_map subseq_filter_left)
  then show ?thesis by (simp add: downsamplePoints_def)
qed

lemma length_filter_enumerate:
  "length (filter (\<lambda>(index, _). Q index) (enumerate n xs))
   = length (filter Q [n..<n + length xs])"
proof -
  have e: "(\<lambda>(index, _). Q index) = Q \<circ> fst" by auto
  have "length (filter (\<lambda>(index, _). Q index) (enumerate n xs))
        = length (map fst (filter (Q \<circ> fst) (enumerate n xs)))"
    by (simp only: e length_map)
  also have "\<dots> = length (filter Q (map fst (enumerate n xs)))"
    by (simp only: filter_map)
  finally show ?thesis by simp
qed

lemma ceilDiv_covers:
  assumes "0 < b"
  shows "a \<le> ceilDiv a b * b"
proof -
  have "a + b - 1 = (a + b - 1) div b * b + (a + b - 1) mod b" by simp
  moreover have "(a + b - 1) mod b < b" using assms by simp
  ultimately have "a + b - 1 < (a + b - 1) div b * b + b" by linarith
  then show ?thesis using assms by (simp add: ceilDiv_def)
qed

lemma ceilDiv_pos: "0 < b \<Longrightarrow> 0 < a \<Longrightarrow> 0 < ceilDiv a b"
  by (simp add: ceilDiv_def div_greater_zero_iff)

lemma stride_count:
  assumes "0 < step" "len \<le> step * n"
  shows "card {i. i < len \<and> i mod step = 0} \<le> n"
proof -
  have "{i. i < len \<and> i mod step = 0} \<subseteq> (\<lambda>k. step * k) ` {..<n}"
  proof
    fix i assume "i \<in> {i. i < len \<and> i mod step = 0}"
    then have i: "i < len" "i mod step = 0" by simp_all
    then have e: "i = step * (i div step)" by (simp add: mod_eq_0_iff_dvd)
    have "step * (i div step) < step * n" using i(1) e assms(2) by simp
    then have "i div step < n" using assms(1) by simp
    then show "i \<in> (\<lambda>k. step * k) ` {..<n}" using e by blast
  qed
  then have "card {i. i < len \<and> i mod step = 0} \<le> card ((\<lambda>k. step * k) ` {..<n})"
    by (intro card_mono) simp_all
  also have "\<dots> \<le> card {..<n}" by (rule card_image_le) simp
  finally show ?thesis by simp
qed

lemma downsamplePoints_length:
  assumes "1 \<le> maxPoints"
  shows "length (downsamplePoints points maxPoints) \<le> maxPoints + 1"
proof (cases "length points \<le> maxPoints")
  case True
  then show ?thesis by (simp add: downsamplePoints_def)
next
  case False
  let ?len = "length points"
  let ?step = "ceilDiv ?len maxPoints"
  have pos: "0 < ?len" using False by linarith
  have step: "0 < ?step" using assms pos by (intro ceilDiv_pos) simp_all
  have cover: "?len \<le> ?step * maxPoints"
    using ceilDiv_covers[of maxPoints ?len] assms by (simp add: mult.commute)
  have "length (downsamplePoints points maxPoints)
        = length (filter (keepIndex ?len maxPoints) [0..<?len])"
    using False length_filter_enumerate[of "keepIndex ?len maxPoints" 0 points]
    by (simp add: downsamplePoints_def)
  also have "\<dots> = card {i. i < ?len \<and> keepIndex ?len maxPoints i}"
    by (simp add: length_filter_conv_card cong: conj_cong)
  also have "\<dots> \<le> card ({i. i < ?len \<and> i mod ?step = 0} \<union> {?len - 1})"
    using assms by (intro card_mono) (auto simp: keepIndex_def)
  also have "\<dots> \<le> card {i. i < ?len \<and> i mod ?step = 0} + card {?len - 1}"
    by (rule card_Un_le)
  also have "\<dots> \<le> maxPoints + 1"
    using stride_count[OF step cover] by simp
  finally show ?thesis .
qed

lemma downsamplePoints_larger_budget:
  assumes "1 \<le> n" "n < m"
  shows "downsamplePoints (downsamplePoints points n) m = downsamplePoints points n"
  using downsamplePoints_length[OF assms(1), of points] assms(2)
  by (simp add: downsamplePoints_def[of "downsamplePoints points n" m])

lemma downsamplePoints_within_budget:
  assumes "length (downsamplePoints points n) \<le> n"
  shows "downsamplePoints (downsamplePoints points n) n = downsamplePoints points n"
  using assms by (simp add: downsamplePoints_def[of "downsamplePoints points n" n])

lemma downsamplePoints_first:
  assumes "points \<noteq> []"
  shows "hd (downsamplePoints points maxPoints) = hd points"
proof (cases points)
  case Nil
  then show ?thesis using assms by simp
next
  case (Cons p ps)
  then show ?thesis
    by (simp add: downsamplePoints_def keepIndex_def)
qed

lemma downsamplePoints_last:
  assumes "points \<noteq> []"
  shows "last (downsamplePoints points maxPoints) = last points"
proof (cases "length points \<le> maxPoints")
  case True
  then show ?thesis by (simp add: downsamplePoints_def)
next
  case False
  let ?P = "\<lambda>(index, _). keepIndex (length points) maxPoints index"
  have e: "enumerate 0 points
           = enumerate 0 (butlast points) @ [(length points - 1, last points)]"
    using assms enumerate_append_eq[of 0 "butlast points" "[last points]"] by simp
  have "filter ?P (enumerate 0 points)
        = filter ?P (enumerate 0 (butlast points)) @ [(length points - 1, last points)]"
    by (subst e) (simp add: keepIndex_def)
  then show ?thesis using False by (simp add: downsamplePoints_def)
qed

section \<open>Properties of the curve builder\<close>

text \<open>Outside the resolved window the impact is \<open>0\<close>, and \<open>1 + 0\<close> is \<open>1\<close>.\<close>

lemma eventMultiplier_outside:
  assumes "kind profile \<noteq> Spike" "resolveWindow profile dt = Some (start, end')"
    "dt < start \<or> end' < dt"
  shows "eventMultiplier profile tag ctx dt = Num 1"
  using assms by (auto simp: eventMultiplier_def windowMultiplier_def jadd_zero)

lemma length_labelDates: "length (labelDates now parse labels) = length labels"
  by (simp add: labelDates_def)

lemma buildEventMultiplier_known:
  assumes "profiles tag = Some profile"
  shows "buildEventMultiplier profiles now parse tag labels ctx
         = map (eventMultiplier profile tag ctx) (labelDates now parse labels)"
  using assms by (simp add: buildEventMultiplier_def getProperty_def labelDates_def)

text \<open>
  Claim C6: for a profile of kind dip, ramp or step, a date that lies before the start or
  after the end of the window resolved for it gets the multiplier \<open>1\<close> exactly, at its
  position in the curve.
\<close>

theorem outside_window_multiplier_is_one:
  assumes "profiles tag = Some profile"
    and "kind profile = Dip \<or> kind profile = Ramp \<or> kind profile = Step"
    and "i < length labels"
    and "resolveWindow profile (labelDates now parse labels ! i) = Some (start, end')"
    and "labelDates now parse labels ! i < start \<or> end' < labelDates now parse labels ! i"
  shows "buildEventMultiplier profiles now parse tag labels ctx ! i = Num 1"
proof -
  have k: "kind profile \<noteq> Spike" using assms(2) by auto
  have "buildEventMultiplier profiles now parse tag labels ctx ! i
        = eventMultiplier profile tag ctx (labelDates now parse labels ! i)"
    using assms(1,3) by (simp add: buildEventMultiplier_known length_labelDates)
  then show ?thesis using eventMultiplier_outside[OF k assms(4,5)] by simp
qed

text \<open>
  The shipped "Year-End Promo (Dec)" step profile on 30 November 2026, the day before
  its window opens.
\<close>

theorem outside_window_multiplier_is_one_witness:
  "EVENT_PROFILES ''Year-End Promo (Dec)'' = Some (windowed Step 0.07 0.18 (md 12 1) (md 12 31))
   \<and> labelDates 0 (\<lambda>_. None) [Text ''2026-11-30''] ! 0 = 1795996800000
   \<and> resolveWindow (windowed Step 0.07 0.18 (md 12 1) (md 12 31)) 1795996800000
       = Some (1796083200000, 1798675200000)
   \<and> buildEventMultiplier EVENT_PROFILES 0 (\<lambda>_. None) ''Year-End Promo (Dec)''
        [Text ''2026-11-30''] None ! 0 = Num 1"
proof -
  have h1: "EVENT_PROFILES ''Year-End Promo (Dec)''
            = Some (windowed Step 0.07 0.18 (md 12 1) (md 12 31))"
    by (simp add: EVENT_PROFILES_def EVENT_PROFILES_list_def)
  have h2: "kind (windowed Step 0.07 0.18 (md 12 1) (md 12 31)) = Dip
            \<or> kind (windowed Step 0.07 0.18 (md 12 1) (md 12 31)) = Ramp
            \<or> kind (windowed Step 0.07 0.18 (md 12 1) (md 12 31)) = Step"
    by (simp add: windowed_def)
  have h3: "(0::nat) < length [Text ''2026-11-30'']" by simp
  have d: "labelDates 0 (\<lambda>_. None) [Text ''2026-11-30''] ! 0 = 1795996800000"
    by code_simp
  have w: "resolveWindow (windowed Step 0.07 0.18 (md 12 1) (md 12 31)) 1795996800000
           = Some (1796083200000, 1798675200000)"
    by code_simp
  have h4: "resolveWindow (windowed Step 0.07 0.18 (md 12 1) (md 12 31))
              (labelDates 0 (\<lambda>_. None) [Text ''2026-11-30''] ! 0)
            = Some (1796083200000, 1798675200000)"
    by (simp only: d w)
  have h5: "labelDates 0 (\<lambda>_. None) [Text ''2026-11-30''] ! 0 < 1796083200000
            \<or> 1798675200000 < labelDates 0 (\<lambda>_. None) [Text ''2026-11-30''] ! 0"
    by (simp only: d) simp
  from outside_window_multiplier_is_one[where profiles = EVENT_PROFILES
      and tag = "''Year-End Promo (Dec)''" and ctx = None, OF h1 h2 h3 h4 h5]
  have c: "buildEventMultiplier EVENT_PROFILES 0 (\<lambda>_. None) ''Year-End Promo (Dec)''
             [Text ''2026-11-30''] None ! 0 = Num 1" .
  show ?thesis using h1 d w c by (intro conjI)
qed

section \<open>Properties of the composer\<close>

lemma scalePoint_forecast [simp]:
  "forecast (scalePoint dates c i pt) = round1 (jmul (forecast pt) c)"
  by (simp add: scalePoint_def)

lemma map_enumerate_const:
  "map (\<lambda>(index, pt). g pt) (enumerate n pts) = map g pts"
  by (induction pts arbitrary: n) auto

text \<open>
  A tag that is not a key of the catalog. The lookup is \<open>undefined\<close> and the curve is
  empty, unless the tag is the name of a property inherited from \<^verbatim>\<open>Object.prototype\<close>:
  then the curve has a \<open>1\<close> for every label. Its multiplier reads \<open>1\<close> at every
  position either way, and the direct policy with a percent shift of \<open>+10\<close> sets every
  forecast to the baseline forecast times \<open>1.10\<close>, rounded to one decimal.
\<close>

lemma unknown_tag_curve:
  assumes "profiles tag = None"
  shows "buildEventMultiplier profiles now parse tag labels ctx
         = (if tag \<in> set objectPrototypeKeys then replicate (length labels) (Num 1) else [])"
proof -
  have "map (entryMultiplier Inherited tag ctx) dates = replicate (length dates) (Num 1)"
    for dates
    by (induction dates) simp_all
  then show ?thesis
    using assms by (simp add: buildEventMultiplier_def getProperty_def length_labelDates)
qed

lemma unknown_tag_multiplier_one:
  assumes "profiles tag = None"
  shows "nthOr1 (buildEventMultiplier profiles now parse tag labels ctx) i = Num 1"
  using assms by (simp add: unknown_tag_curve nthOr1_def)

lemma direct_multiplier_ten: "jadd (Num 1) (jdiv (Num 10) (Num 100)) = Num 1.10"
proof -
  have "jdiv (Num 10) (Num 100) = Num (1 / 10)" by (simp add: jdiv_small)
  moreover have "jadd (Num 1) (Num (1 / 10)) = Num (1 + 1 / 10)"
    by (rule jadd_one_exact) simp_all
  ultimately show ?thesis by simp
qed

lemma unknown_tag_flat_shift:
  assumes "profiles tag = None"
  shows "map forecast (whatIfDirect profiles now parse 10 tag ctx points)
         = map (\<lambda>pt. round1 (jmul (forecast pt) (Num 1.10))) points"
proof -
  have c: "jmul (Num 1.10) (Num 1) = Num 1.10" by (simp add: jmul_small)
  have "map forecast (whatIfDirect profiles now parse 10 tag ctx points)
        = map (\<lambda>(index, pt). round1 (jmul (forecast pt) (Num 1.10))) (enumerate 0 points)"
    using assms c direct_multiplier_ten
    by (simp add: whatIfDirect_def unknown_tag_multiplier_one case_prod_unfold)
  then show ?thesis by (simp add: map_enumerate_const)
qed

lemma undefined_tag_empty_curve:
  assumes "profiles tag = None" "tag \<notin> set objectPrototypeKeys"
  shows "getProperty profiles tag = None"
    and "buildEventMultiplier profiles now parse tag labels ctx = []"
  using assms by (simp_all add: unknown_tag_curve getProperty_def)

lemma round1_example: "round1 (jmul (Num 120.6) (Num 1.10)) = Num 132.7"
proof -
  have "jmul (Num 120.6) (Num 1.10) = Num 132.66" by (simp add: jmul_small)
  moreover have "round1 (Num 132.66) = Num 132.7" by (subst round1_small) simp_all
  ultimately show ?thesis by simp
qed


text \<open>
  A tag that is neither in the shipped catalog nor inherited, on the same baseline: the
  curve is empty and the forecast is the same.
\<close>

lemma undefined_tag_example:
  "getProperty EVENT_PROFILES ''Trade Fair'' = None
   \<and> buildEventMultiplier EVENT_PROFILES 0 (\<lambda>_. None) ''Trade Fair'' [Text ''2026-11-30''] None = []
   \<and> map forecast (whatIfDirect EVENT_PROFILES 0 (\<lambda>_. None) 10 ''Trade Fair'' None
        [\<lparr>date = Text ''2026-11-30'', forecast = Num 120.6, lower = Num 106.1, upper = Num 135.1\<rparr>])
      = [Num 132.7]"
proof -
  have h: "EVENT_PROFILES ''Trade Fair'' = None"
    by (simp add: EVENT_PROFILES_def EVENT_PROFILES_list_def)
  have k: "''Trade Fair'' \<notin> set objectPrototypeKeys"
    by (simp add: objectPrototypeKeys_def)
  show ?thesis
    using h k round1_example
    by (simp add: undefined_tag_empty_curve unknown_tag_flat_shift)
qed

section \<open>Properties of the sequence-level date fallback\<close>

lemma length_buildDailyLabels [simp]: "length (buildDailyLabels start count) = count"
  by (simp add: buildDailyLabels_def)

lemma buildDailyLabels_nth:
  "i < count \<Longrightarrow>
   buildDailyLabels start count ! i = Text (formatDate (start + (int i + 1) * msPerDay))"
  by (simp add: buildDailyLabels_def msPerDay_def)

lemma Day_add_days: "Day (t + k * msPerDay) = Day t + k"
  by (simp add: Day_def msPerDay_def)

lemma no_blank_filter: "\<not> list_ex (\<lambda>v. \<not> truthy v) raw \<Longrightarrow> filter truthy raw = raw"
  by (induction raw) auto

lemma fallback_condition:
  "(card (set (filter truthy raw)) \<le> 1 \<or> list_ex (\<lambda>v. \<not> truthy v) raw)
   = someBlankOrDuplicated raw"
proof (cases "list_ex (\<lambda>v. \<not> truthy v) raw")
  case True
  then show ?thesis by (simp add: someBlankOrDuplicated_def)
next
  case False
  then show ?thesis
    by (simp add: someBlankOrDuplicated_def no_blank_filter length_remdups_card_conv)
qed

text \<open>
  Claim C9, as the code has it: the labels are replaced by the daily labels from
  tomorrow (UTC) exactly when some label is absent or blank or all labels are one and
  the same value; otherwise the labels of the points are returned as they are. The
  length is the number of points either way, and the \<open>i\<close>-th daily label is the
  formatted date of a time on the \<open>(i + 1)\<close>-th UTC day after today.
\<close>

theorem resolvePointDates_fallback:
  "resolvePointDates now points
     = (if someBlankOrDuplicated (map date points)
        then buildDailyLabels now (length points) else map date points)
   \<and> length (resolvePointDates now points) = length points
   \<and> (\<forall>i < length points.
         buildDailyLabels now (length points) ! i
           = Text (formatDate (now + (int i + 1) * msPerDay))
         \<and> Day (now + (int i + 1) * msPerDay) = Day now + int i + 1)"
proof (cases "points = []")
  case True
  then show ?thesis
    by (simp add: resolvePointDates_def buildDailyLabels_def)
next
  case False
  have eq: "resolvePointDates now points
     = (if someBlankOrDuplicated (map date points)
        then buildDailyLabels now (length points) else map date points)"
    using False fallback_condition[of "map date points"]
    by (simp add: resolvePointDates_def Let_def)
  have len: "length (resolvePointDates now points) = length points"
    by (simp add: eq)
  have days: "\<forall>i < length points.
         buildDailyLabels now (length points) ! i
           = Text (formatDate (now + (int i + 1) * msPerDay))
         \<and> Day (now + (int i + 1) * msPerDay) = Day now + int i + 1"
    by (simp add: buildDailyLabels_nth Day_add_days)
  show ?thesis using eq len days by blast
qed

text \<open>
  Two points with the same label, at 2026-11-03T10:00:00Z: the labels become
  4 and 5 November 2026.
\<close>

theorem resolvePointDates_fallback_witness:
  "someBlankOrDuplicated (map date
      [\<lparr>date = Text ''2026-01-01'', forecast = Num 1, lower = Num 1, upper = Num 1\<rparr>,
       \<lparr>date = Text ''2026-01-01'', forecast = Num 2, lower = Num 2, upper = Num 2\<rparr>])
   \<and> resolvePointDates 1793700000000
      [\<lparr>date = Text ''2026-01-01'', forecast = Num 1, lower = Num 1, upper = Num 1\<rparr>,
       \<lparr>date = Text ''2026-01-01'', forecast = Num 2, lower = Num 2, upper = Num 2\<rparr>]
     = [Text ''2026-11-04'', Text ''2026-11-05'']"
proof -
  have a: "someBlankOrDuplicated (map date
      [\<lparr>date = Text ''2026-01-01'', forecast = Num 1, lower = Num 1, upper = Num 1\<rparr>,
       \<lparr>date = Text ''2026-01-01'', forecast = Num 2, lower = Num 2, upper = Num 2\<rparr>])"
    by (simp add: someBlankOrDuplicated_def)
  have f1: "formatDate 1793786400000 = ''2026-11-04''" by code_simp
  have f2: "formatDate 1793872800000 = ''2026-11-05''" by code_simp
  have b: "buildDailyLabels 1793700000000 2 = [Text ''2026-11-04'', Text ''2026-11-05'']"
    by (simp add: buildDailyLabels_def upt_rec f1 f2)
  have l: "length
      [\<lparr>date = Text ''2026-01-01'', forecast = Num 1, lower = Num 1, upper = Num 1\<rparr>,
       \<lparr>date = Text ''2026-01-01'', forecast = Num 2, lower = Num 2, upper = Num 2\<rparr>] = 2"
    by simp
  from resolvePointDates_fallback[of 1793700000000
      "[\<lparr>date = Text ''2026-01-01'', forecast = Num 1, lower = Num 1, upper = Num 1\<rparr>,
        \<lparr>date = Text ''2026-01-01'', forecast = Num 2, lower = Num 2, upper = Num 2\<rparr>]"]
  have "resolvePointDates 1793700000000
      [\<lparr>date = Text ''2026-01-01'', forecast = Num 1, lower = Num 1, upper = Num 1\<rparr>,
       \<lparr>date = Text ''2026-01-01'', forecast = Num 2, lower = Num 2, upper = Num 2\<rparr>]
     = [Text ''2026-11-04'', Text ''2026-11-05'']"
    by (simp only: a l b if_True)
  with a show ?thesis by (intro conjI)
qed

text \<open>
  Claim C9 as stated fails: of three labels only the middle one is blank, so the
  sequence is neither entirely blank nor duplicated, and yet all three labels are
  replaced (here with the clock at the epoch).
\<close>

theorem resolvePointDates_one_blank_counterexample:
  "\<not> entirelyBlankOrDuplicated (map date
      [\<lparr>date = Text ''2026-01-01'', forecast = Num 1, lower = Num 1, upper = Num 1\<rparr>,
       \<lparr>date = Text '''', forecast = Num 2, lower = Num 2, upper = Num 2\<rparr>,
       \<lparr>date = Text ''2026-01-03'', forecast = Num 3, lower = Num 3, upper = Num 3\<rparr>])
   \<and> resolvePointDates 0
      [\<lparr>date = Text ''2026-01-01'', forecast = Num 1, lower = Num 1, upper = Num 1\<rparr>,
       \<lparr>date = Text '''', forecast = Num 2, lower = Num 2, upper = Num 2\<rparr>,
       \<lparr>date = Text ''2026-01-03'', forecast = Num 3, lower = Num 3, upper = Num 3\<rparr>]
     = [Text ''1970-01-02'', Text ''1970-01-03'', Text ''1970-01-04'']"
proof -
  have g1: "formatDate 86400000 = ''1970-01-02''" by code_simp
  have g2: "formatDate 172800000 = ''1970-01-03''" by code_simp
  have g3: "formatDate 259200000 = ''1970-01-04''" by code_simp
  have c: "buildDailyLabels 0 3
           = [Text ''1970-01-02'', Text ''1970-01-03'', Text ''1970-01-04'']"
    by (simp add: buildDailyLabels_def upt_rec g1 g2 g3)
  have d: "resolvePointDates 0
      [\<lparr>date = Text ''2026-01-01'', forecast = Num 1, lower = Num 1, upper = Num 1\<rparr>,
       \<lparr>date = Text '''', forecast = Num 2, lower = Num 2, upper = Num 2\<rparr>,
       \<lparr>date = Text ''2026-01-03'', forecast = Num 3, lower = Num 3, upper = Num 3\<rparr>]
     = buildDailyLabels 0 3"
    by (simp add: resolvePointDates_def numeral_3_eq_3)
  have e: "\<not> entirelyBlankOrDuplicated (map date
      [\<lparr>date = Text ''2026-01-01'', forecast = Num 1, lower = Num 1, upper = Num 1\<rparr>,
       \<lparr>date = Text '''', forecast = Num 2, lower = Num 2, upper = Num 2\<rparr>,
       \<lparr>date = Text ''2026-01-03'', forecast = Num 3, lower = Num 3, upper = Num 3\<rparr>])"
    by (simp add: entirelyBlankOrDuplicated_def)
  show ?thesis using e d c by simp
qed

section \<open>Properties of the normalized policy\<close>

lemma length_resolvePointDates: "length (resolvePointDates now points) = length points"
  by (simp add: resolvePointDates_def Let_def buildDailyLabels_def)

lemma jadd_small:
  assumes "\<bar>x\<bar> < \<bar>y\<bar> * 2 ^ 53" "\<bar>y\<bar> < \<bar>x\<bar> * 2 ^ 53" "\<bar>x + y\<bar> \<le> 2 ^ 64"
  shows "jadd (Num x) (Num y) = Num (x + y)"
  using assms overflowAt_large by (intro jadd_Num) simp_all

lemma forecast_scale_const:
  "map forecast (map (\<lambda>(index, pt). scalePoint dates c index pt) (enumerate n pts))
   = map (\<lambda>pt. round1 (jmul (forecast pt) c)) pts"
  by (induction pts arbitrary: n) auto

lemma nthOr1_ones: "nthOr1 (replicate n (Num 1)) i = Num 1"
  by (simp add: nthOr1_def)

lemma step_inside_multiplier:
  assumes "kind profile = Step" "insideWindow profile dt"
  shows "eventMultiplier profile tag ctx dt = jadd (Num 1) (Num (peakImpact profile))"
  using assms
  by (auto simp: eventMultiplier_def windowMultiplier_def insideWindow_def windowImpact_def
      split: option.splits)

lemma map_const_replicate:
  "list_all (\<lambda>x. f x = c) xs \<Longrightarrow> map f xs = replicate (length xs) c"
  by (induction xs) auto

text \<open>The curve of five multipliers \<open>1.1\<close>: the sum is \<open>5.5\<close> and the mean \<open>1.1\<close>.\<close>

lemma normalizeCurve_five:
  "normalizeCurve (replicate 5 (Num (11 / 10))) = replicate 5 (Num 1)"
proof -
  have s1: "jadd (Num 0) (Num (11 / 10)) = Num (11 / 10)" by (rule jadd_zero)
  have s2: "jadd (Num (11 / 10)) (Num (11 / 10)) = Num (22 / 10)"
    by (subst jadd_small) simp_all
  have s3: "jadd (Num (22 / 10)) (Num (11 / 10)) = Num (33 / 10)"
    by (subst jadd_small) simp_all
  have s4: "jadd (Num (33 / 10)) (Num (11 / 10)) = Num (44 / 10)"
    by (subst jadd_small) simp_all
  have s5: "jadd (Num (44 / 10)) (Num (11 / 10)) = Num (55 / 10)"
    by (subst jadd_small) simp_all
  have r: "replicate 5 (Num (11 / 10))
           = [Num (11 / 10), Num (11 / 10), Num (11 / 10), Num (11 / 10), Num (11 / 10)]"
    by (simp add: numeral_eq_Suc)
  have f: "foldl jadd (Num 0) (replicate 5 (Num (11 / 10))) = Num (55 / 10)"
    by (simp only: r foldl.simps s1 s2 s3 s4 s5)
  have d: "jdiv (Num (55 / 10)) (Num 5) = Num (11 / 10)"
    by (subst jdiv_small) simp_all
  have a: "avgCurve (replicate 5 (Num (11 / 10))) = Num (11 / 10)"
    unfolding avgCurve_def f using d by simp
  have q: "jdiv (Num (11 / 10)) (Num (11 / 10)) = Num 1"
    by (subst jdiv_small) simp_all
  show ?thesis
    unfolding normalizeCurve_def a by (simp add: orElse_def q)
qed

lemma round1_hundred: "round1 (jmul (Num 100) (Num 1)) = Num 100"
proof -
  have "jmul (Num 100) (Num 1) = Num 100" by (subst jmul_small) simp_all
  moreover have "round1 (Num 100) = Num 100" by (subst round1_small) simp_all
  ultimately show ?thesis by simp
qed

text \<open>
  Claim C2: a baseline of five points, all with forecast \<open>100\<close>; a step profile with peak
  impact \<open>0.10\<close> whose window holds every date of the horizon. Under the normalized
  policy the curve is \<open>1.1\<close> throughout, its mean is \<open>1.1\<close>, every normalized multiplier
  is \<open>1\<close>, and every forecast of the result is \<open>100\<close>. (This branch does not apply the
  percent shift itself: it is sent to the forecast service with the request.)
\<close>

theorem normalized_uniform_step_keeps_baseline:
  assumes "profiles tag = Some profile"
    and "kind profile = Step"
    and "peakImpact profile = 0.10"
    and "length points = 5"
    and "list_all (\<lambda>pt. forecast pt = Num 100) points"
    and "list_all (insideWindow profile) (labelDates now parse (resolvePointDates now points))"
  shows "map forecast (whatIfNormalized profiles now parse tag ctx points)
         = replicate 5 (Num 100)"
proof -
  let ?dates = "resolvePointDates now points"
  have m: "jadd (Num 1) (Num (peakImpact profile)) = Num (11 / 10)"
    unfolding assms(3) by (subst jadd_one_exact) simp_all
  have "list_all (\<lambda>dt. eventMultiplier profile tag ctx dt = Num (11 / 10))
          (labelDates now parse ?dates)"
    using assms(6) step_inside_multiplier[OF assms(2), of _ tag ctx] m
    by (auto simp: list_all_iff)
  then have curve: "buildEventMultiplier profiles now parse tag ?dates ctx
                    = replicate 5 (Num (11 / 10))"
    using assms(1,4)
    by (simp add: buildEventMultiplier_known map_const_replicate length_labelDates
        length_resolvePointDates)
  have g: "getProperty profiles tag = Some (Profile profile)"
    using assms(1) by (simp add: getProperty_def)
  have "map forecast (whatIfNormalized profiles now parse tag ctx points)
        = map (\<lambda>pt. round1 (jmul (forecast pt) (Num 1))) points"
    by (simp add: whatIfNormalized_def g composeNormalized_def curve normalizeCurve_five
        nthOr1_ones forecast_scale_const del: map_map)
  also have "\<dots> = replicate (length points) (Num 100)"
    using assms(5) by (intro map_const_replicate) (auto simp: list_all_iff round1_hundred)
  finally show ?thesis using assms(4) by simp
qed

text \<open>
  A catalog with one step profile of peak impact \<open>0.10\<close> whose window is March, and
  five daily points from 10 to 14 March 2026.
\<close>

theorem normalized_uniform_step_keeps_baseline_witness:
  "list_all (insideWindow (windowed Step 0.05 0.10 (md 3 1) (md 3 31)))
     (labelDates 0 (\<lambda>_. None) (resolvePointDates 0
        [\<lparr>date = Text ''2026-03-10'', forecast = Num 100, lower = Num 90, upper = Num 110\<rparr>,
         \<lparr>date = Text ''2026-03-11'', forecast = Num 100, lower = Num 90, upper = Num 110\<rparr>,
         \<lparr>date = Text ''2026-03-12'', forecast = Num 100, lower = Num 90, upper = Num 110\<rparr>,
         \<lparr>date = Text ''2026-03-13'', forecast = Num 100, lower = Num 90, upper = Num 110\<rparr>,
         \<lparr>date = Text ''2026-03-14'', forecast = Num 100, lower = Num 90, upper = Num 110\<rparr>]))
   \<and> map forecast
        (whatIfNormalized [''Spring Sale'' \<mapsto> windowed Step 0.05 0.10 (md 3 1) (md 3 31)]
           0 (\<lambda>_. None) ''Spring Sale'' None
        [\<lparr>date = Text ''2026-03-10'', forecast = Num 100, lower = Num 90, upper = Num 110\<rparr>,
         \<lparr>date = Text ''2026-03-11'', forecast = Num 100, lower = Num 90, upper = Num 110\<rparr>,
         \<lparr>date = Text ''2026-03-12'', forecast = Num 100, lower = Num 90, upper = Num 110\<rparr>,
         \<lparr>date = Text ''2026-03-13'', forecast = Num 100, lower = Num 90, upper = Num 110\<rparr>,
         \<lparr>date = Text ''2026-03-14'', forecast = Num 100, lower = Num 90, upper = Num 110\<rparr>])
      = [Num 100, Num 100, Num 100, Num 100, Num 100]"
proof -
  let ?p = "windowed Step 0.05 0.10 (md 3 1) (md 3 31)"
  let ?pts = "[\<lparr>date = Text ''2026-03-10'', forecast = Num 100, lower = Num 90, upper = Num 110\<rparr>,
         \<lparr>date = Text ''2026-03-11'', forecast = Num 100, lower = Num 90, upper = Num 110\<rparr>,
         \<lparr>date = Text ''2026-03-12'', forecast = Num 100, lower = Num 90, upper = Num 110\<rparr>,
         \<lparr>date = Text ''2026-03-13'', forecast = Num 100, lower = Num 90, upper = Num 110\<rparr>,
         \<lparr>date = Text ''2026-03-14'', forecast = Num 100, lower = Num 90, upper = Num 110\<rparr>]"
  have h1: "[''Spring Sale'' \<mapsto> ?p] ''Spring Sale'' = Some ?p" by simp
  have h2: "kind ?p = Step" by (simp add: windowed_def)
  have h3: "peakImpact ?p = 0.10" by (simp add: windowed_def)
  have h4: "length ?pts = 5" by simp
  have h5: "list_all (\<lambda>pt. forecast pt = Num 100) ?pts" by simp
  have h6: "list_all (insideWindow ?p) (labelDates 0 (\<lambda>_. None) (resolvePointDates 0 ?pts))"
    by code_simp
  from normalized_uniform_step_keeps_baseline[where profiles = "[''Spring Sale'' \<mapsto> ?p]"
      and tag = "''Spring Sale''" and ctx = None, OF h1 h2 h3 h4 h5 h6]
  have "map forecast (whatIfNormalized [''Spring Sale'' \<mapsto> ?p] 0 (\<lambda>_. None)
          ''Spring Sale'' None ?pts) = replicate 5 (Num 100)" .
  then have c: "map forecast (whatIfNormalized [''Spring Sale'' \<mapsto> ?p] 0 (\<lambda>_. None)
          ''Spring Sale'' None ?pts) = [Num 100, Num 100, Num 100, Num 100, Num 100]"
    by (simp add: numeral_eq_Suc)
  show ?thesis using h6 c by (intro conjI)
qed


text \<open>
  A curve whose multipliers lie between \<open>1/2\<close> and \<open>2\<close>, with fewer than \<open>2\<^sup>3\<^sup>2\<close>
  entries (the length of an array is below \<open>2\<^sup>3\<^sup>2\<close>): no partial sum overflows or
  absorbs its next term, the mean lies between \<open>1/2\<close> and \<open>2\<close>, and the normalized
  multipliers between \<open>1/4\<close> and \<open>4\<close>.
\<close>

lemma foldl_jadd_between:
  assumes "list_all (between (1 / 2) 2) xs"
    and "a = 0 \<or> 1 / 2 \<le> a"
    and "a + 2 * real (length xs) \<le> 2 ^ 40"
  shows "\<exists>s. foldl jadd (Num a) xs = Num s
             \<and> a + real (length xs) / 2 \<le> s \<and> s \<le> a + 2 * real (length xs)"
  using assms
proof (induction xs arbitrary: a)
  case Nil
  then show ?case by simp
next
  case (Cons x xs)
  obtain v where v: "x = Num v" "1 / 2 \<le> v" "v \<le> 2"
    using Cons.prems(1) by (auto simp: between_iff)
  have le: "a + 2 + 2 * real (length xs) \<le> 2 ^ 40" using Cons.prems(3) by simp
  have step: "jadd (Num a) (Num v) = Num (a + v)"
  proof (cases "a = 0")
    case True
    then show ?thesis by (simp add: jadd_zero)
  next
    case False
    then have a: "1 / 2 \<le> a" using Cons.prems(2) by simp
    have b: "a \<le> 2 ^ 40" using le by linarith
    show ?thesis
      by (rule jadd_small) (use a b v in simp_all)
  qed
  have p1: "list_all (between (1 / 2) 2) xs" using Cons.prems(1) by simp
  have p2: "a + v = 0 \<or> 1 / 2 \<le> a + v" using Cons.prems(2) v by auto
  have p3: "a + v + 2 * real (length xs) \<le> 2 ^ 40" using le v by linarith
  obtain s where s: "foldl jadd (Num (a + v)) xs = Num s"
      "a + v + real (length xs) / 2 \<le> s" "s \<le> a + v + 2 * real (length xs)"
    using Cons.IH[OF p1 p2 p3] by blast
  have "foldl jadd (Num a) (x # xs) = Num s" by (simp add: v(1) step s(1))
  moreover have "a + real (length (x # xs)) / 2 \<le> s"
    using s(2) v(2) by (simp add: add_divide_distrib)
  moreover have "s \<le> a + 2 * real (length (x # xs))" using s(3) v(3) by simp
  ultimately show ?case by blast
qed

lemma avgCurve_between:
  assumes "list_all (between (1 / 2) 2) curve" "curve \<noteq> []" "length curve < 2 ^ 32"
  shows "\<exists>m. avgCurve curve = Num m \<and> 1 / 2 \<le> m \<and> m \<le> 2"
proof -
  define n where "n = real (length curve)"
  have n1: "1 \<le> n" using assms(2) by (cases curve) (simp_all add: n_def)
  have "real (length curve) < real (2 ^ 32)" using assms(3) by (simp only: of_nat_less_iff)
  then have n2: "n < 2 ^ 32" by (simp add: n_def)
  have "0 + 2 * real (length curve) \<le> 2 ^ 40" using n2 by (simp add: n_def)
  then obtain s where s: "foldl jadd (Num 0) curve = Num s"
      "0 + real (length curve) / 2 \<le> s" "s \<le> 0 + 2 * real (length curve)"
    using foldl_jadd_between[OF assms(1), of 0] by blast
  have s2: "n / 2 \<le> s" "s \<le> 2 * n" using s(2,3) by (simp_all add: n_def)
  have n0: "0 < n" using n1 by simp
  have lo: "1 / 2 \<le> s / n" using s2(1) by (simp add: pos_le_divide_eq[OF n0])
  have hi: "s / n \<le> 2" using s2(2) by (simp add: pos_divide_le_eq[OF n0])
  have "jdiv (Num s) (Num n) = Num (s / n)"
    by (rule jdiv_small) (use n1 lo hi in simp_all)
  moreover have "max 1 n = n" using n1 by simp
  ultimately have "avgCurve curve = Num (s / n)"
    by (simp add: avgCurve_def s(1) n_def)
  then show ?thesis using lo hi by blast
qed

lemma normalizeCurve_between:
  assumes "list_all (between (1 / 2) 2) curve" "length curve < 2 ^ 32"
  shows "list_all (between (1 / 4) 4) (normalizeCurve curve)"
proof (cases "curve = []")
  case True
  then show ?thesis by (simp add: normalizeCurve_def)
next
  case False
  obtain m where m: "avgCurve curve = Num m" "1 / 2 \<le> m" "m \<le> 2"
    using avgCurve_between[OF assms(1) False assms(2)] by blast
  have d: "orElse (avgCurve curve) (Num 1) = Num m" using m by (simp add: orElse_def)
  have "between (1 / 4) 4 (jdiv v (Num m))" if "v \<in> set curve" for v
  proof -
    have "between (1 / 2) 2 v" using assms(1) that by (simp add: list_all_iff)
    then obtain x where x: "v = Num x" "1 / 2 \<le> x" "x \<le> 2"
      by (auto simp: between_iff)
    have m0: "0 < m" using m(2) by simp
    have lo: "1 / 4 \<le> x / m" using x(2) m(3) by (simp add: pos_le_divide_eq[OF m0])
    have hi: "x / m \<le> 4" using x(3) m(2) by (simp add: pos_divide_le_eq[OF m0])
    have "jdiv (Num x) (Num m) = Num (x / m)"
      by (rule jdiv_small) (use m(2) lo hi in simp_all)
    then show ?thesis using lo hi by (simp add: x(1))
  qed
  then show ?thesis by (simp add: normalizeCurve_def d list_all_iff)
qed

lemma nthOr1_between:
  assumes "list_all (between (1 / 4) 4) xs"
  shows "between (- 4) 4 (nthOr1 xs i)"
proof (cases "i < length xs")
  case True
  then have "between (1 / 4) 4 (xs ! i)" using assms by (simp add: list_all_length)
  then show ?thesis using True by (auto simp: nthOr1_def between_iff)
next
  case False
  then show ?thesis by (simp add: nthOr1_def)
qed

text \<open>
  A baseline value of magnitude at most \<open>10\<^sup>3\<^sup>0\<^sup>0\<close>, scaled by a multiplier of magnitude at
  most \<open>4\<close> and rounded to one decimal, stays below the overflow threshold.
\<close>

lemma overflowAt_big: "40 * 10 ^ 300 + 1 < overflowAt"
  by (simp add: overflowAt_def)

lemma round1_jmul_finite:
  assumes "between (- (10 ^ 300)) (10 ^ 300) a" "between (- 4) 4 c"
  shows "isFinite (round1 (jmul a c))"
proof -
  define B :: real where "B = 10 ^ 300"
  have B: "40 * B + 1 < overflowAt" "0 \<le> B"
    unfolding B_def by (rule overflowAt_big) simp
  obtain x where x: "a = Num x" "- B \<le> x" "x \<le> B"
    using assms(1) unfolding B_def[symmetric] by (auto simp: between_iff)
  obtain y where y: "c = Num y" "- 4 \<le> y" "y \<le> 4"
    using assms(2) by (auto simp: between_iff)
  have "\<bar>x\<bar> * \<bar>y\<bar> \<le> B * 4"
    by (rule mult_mono) (use x y B in simp_all)
  then have p: "\<bar>x * y\<bar> \<le> 4 * B" by (simp add: abs_mult)
  have m: "jmul (Num x) (Num y) = Num (x * y)"
    by (rule jmul_Num) (use p B in linarith)
  have "round1 (Num (x * y)) = Num (real_of_int \<lfloor>x * y * 10 + 1 / 2\<rfloor> / 10)"
    by (rule round1_Num) (use p B in linarith)
  then show ?thesis by (simp add: x(1) y(1) m)
qed

lemma scalePoint_finite:
  assumes "boundedPoint (10 ^ 300) pt" "between (- 4) 4 c"
  shows "finitePoint (scalePoint dates c i pt)"
  using assms
  by (simp add: finitePoint_def boundedPoint_def scalePoint_def round1_jmul_finite
      del: power_numeral)

lemma scaled_points_finite:
  assumes "list_all (boundedPoint (10 ^ 300)) pts" "\<And>i. between (- 4) 4 (f i)"
  shows "list_all finitePoint
           (map (\<lambda>(index, pt). scalePoint dates (f index) index pt) (enumerate n pts))"
  using assms(1)
  by (induction pts arbitrary: n) (auto simp: scalePoint_finite assms(2) simp del: power_numeral)




text \<open>
  The guard at work: a curve whose mean is \<open>0\<close> is divided by \<open>1\<close>.
\<close>

lemma zero_mean_curve:
  "avgCurve [Num 1, Num (- 1)] = Num 0
   \<and> orElse (avgCurve [Num 1, Num (- 1)]) (Num 1) = Num 1
   \<and> normalizeCurve [Num 1, Num (- 1)] = [Num 1, Num (- 1)]"
proof -
  have s1: "jadd (Num 0) (Num 1) = Num 1" by (rule jadd_zero)
  have s2: "jadd (Num 1) (Num (- 1)) = Num 0"
    using jadd_one_exact[of "- 1"] by simp
  have d: "jdiv (Num 0) (Num 2) = Num 0" by (subst jdiv_small) simp_all
  have a: "avgCurve [Num 1, Num (- 1)] = Num 0"
    by (simp add: avgCurve_def s1 s2 d)
  have q: "jdiv (Num 1) (Num 1) = Num 1" "jdiv (Num (- 1)) (Num 1) = Num (- 1)"
    by (subst jdiv_small; simp)+
  show ?thesis by (simp add: a normalizeCurve_def orElse_def q)
qed


section \<open>Bounds on the multipliers of the shipped catalog\<close>

text \<open>
  Every kernel scales the peak impact by a factor between 0 and 1; the factor is \<open>0\<close>
  when the sum \<open>1 + impact\<close> absorbs the impact. The peak impact is taken to be at most
  \<open>1\<close> in magnitude, as in the shipped catalog, so that no product overflows.
\<close>

lemma spikeMultiplier_factor:
  assumes "\<bar>peakImpact profile\<bar> \<le> 1"
  shows "\<exists>k. 0 \<le> k \<and> k \<le> 1 \<and> spikeMultiplier profile tag ctx dt = Num (1 + peakImpact profile * k)"
proof (cases "resolveCenter profile tag ctx dt")
  case None
  then have "spikeMultiplier profile tag ctx dt = Num (1 + peakImpact profile * 0)"
    by (simp add: spikeMultiplier_def)
  then show ?thesis by (intro exI[of _ 0]) simp
next
  case (Some c)
  define g where "g = exp (- 0.5 * (spikeDist dt c / spikeSigma profile) ^ 2)"
  have g: "0 \<le> g" "g \<le> 1" by (simp_all add: g_def)
  have pg: "\<bar>peakImpact profile * g\<bar> \<le> 1"
    using assms g mult_mono[of "\<bar>peakImpact profile\<bar>" 1 "\<bar>g\<bar>" 1] by (simp add: abs_mult)
  have i: "spikeImpact profile dt c = Num (peakImpact profile * g)"
    unfolding spikeImpact_def Let_def g_def[symmetric]
    by (rule jmul_small) (use pg in simp)
  have m: "spikeMultiplier profile tag ctx dt = jadd (Num 1) (Num (peakImpact profile * g))"
    using Some by (simp add: spikeMultiplier_def i)
  from jadd_one_cases[OF pg] show ?thesis
  proof
    assume "jadd (Num 1) (Num (peakImpact profile * g)) = Num 1"
    then have "spikeMultiplier profile tag ctx dt = Num (1 + peakImpact profile * 0)"
      using m by simp
    then show ?thesis by (intro exI[of _ 0]) simp
  next
    assume "jadd (Num 1) (Num (peakImpact profile * g)) = Num (1 + peakImpact profile * g)"
    then have "spikeMultiplier profile tag ctx dt = Num (1 + peakImpact profile * g)"
      using m by simp
    then show ?thesis using g by blast
  qed
qed

lemma windowT_unit:
  assumes "start < end'" "start \<le> dt" "dt \<le> end'"
  shows "\<exists>t. 0 \<le> t \<and> t \<le> 1 \<and> windowT dt start end' = Num t"
proof -
  define q where "q = real_of_int (dt - start) / real_of_int (end' - start)"
  have d: "0 < real_of_int (end' - start)" using assms(1) by simp
  have q: "0 \<le> q" "q \<le> 1"
    using assms d by (simp_all add: q_def pos_divide_le_eq[OF d])
  have nz: "real_of_int (end' - start) \<noteq> 0" using d by simp
  have "\<bar>q\<bar> \<le> 2 ^ 64" using q by simp
  then have aq: "\<bar>real_of_int (dt - start) / real_of_int (end' - start)\<bar> \<le> 2 ^ 64"
    unfolding q_def .
  have "jdiv (Num (real_of_int (dt - start))) (Num (real_of_int (end' - start))) = Num q"
    unfolding q_def by (rule jdiv_small[OF nz aq])
  then have "windowT dt start end' = Num (min 1 (max 0 q))"
    by (simp add: windowT_def)
  then show ?thesis by (intro exI[of _ "min 1 (max 0 q)"]) simp
qed

lemma dip_distance:
  assumes "0 \<le> t" "t \<le> 1"
  shows "\<exists>d. jsub (Num t) (Num (1 / 2)) = Num d \<and> \<bar>d\<bar> \<le> 1 / 2"
proof -
  have n: "\<not> absorbs t (- (1 / 2))" using absorbs_small[of t "- (1 / 2)"] assms by auto
  have b: "\<bar>t + - (1 / 2)\<bar> \<le> 1 / 2" using assms by linarith
  have f: "fin (t + - (1 / 2)) = Num (t + - (1 / 2))"
    using b by (intro fin_small) simp
  have "jsub (Num t) (Num (1 / 2)) = Num (- (1 / 2))
        \<or> jsub (Num t) (Num (1 / 2)) = Num (t + - (1 / 2))"
    using n f by (simp add: jsub_def jadd.simps(1))
  then show ?thesis
  proof
    assume "jsub (Num t) (Num (1 / 2)) = Num (- (1 / 2))"
    then show ?thesis by (intro exI[of _ "- (1 / 2)"]) simp
  next
    assume "jsub (Num t) (Num (1 / 2)) = Num (t + - (1 / 2))"
    then show ?thesis using b by (intro exI[of _ "t + - (1 / 2)"]) simp
  qed
qed

lemma windowImpact_factor:
  assumes "0 \<le> t" "t \<le> 1" "\<bar>peakImpact profile\<bar> \<le> 1"
  shows "\<exists>k. 0 \<le> k \<and> k \<le> 1 \<and> windowImpact profile (Num t) = Num (peakImpact profile * k)"
proof (cases "kind profile")
  case Spike
  then have "windowImpact profile (Num t) = Num (peakImpact profile * 0)"
    by (simp add: windowImpact_def)
  then show ?thesis by (intro exI[of _ 0]) simp
next
  case Dip
  obtain d where d: "jsub (Num t) (Num (1 / 2)) = Num d" "\<bar>d\<bar> \<le> 1 / 2"
    using dip_distance[OF assms(1,2)] by blast
  have dd: "0 \<le> d * d" "d * d \<le> 1 / 4"
    using d(2) mult_mono[of "\<bar>d\<bar>" "1 / 2" "\<bar>d\<bar>" "1 / 2"] by (simp_all add: abs_mult_self_eq)
  have m1: "jmul (Num d) (Num d) = Num (d * d)"
    by (rule jmul_small) (use dd in simp)
  have m2: "jmul (Num (d * d)) (Num 4) = Num (d * d * 4)"
    by (rule jmul_small) (use dd in simp)
  define u where "u = min 1 (d * d * 4)"
  have u: "0 \<le> u" "u \<le> 1" using dd by (simp_all add: u_def)
  have s: "jsub (Num 1) (Num u) = Num 1 \<or> jsub (Num 1) (Num u) = Num (1 + - u)"
    unfolding jsub_def jneg.simps by (rule jadd_one_cases) (use u in simp)
  then obtain k where k: "jsub (Num 1) (Num u) = Num k" "0 \<le> k" "k \<le> 1"
    using u by auto
  have "\<bar>peakImpact profile\<bar> * \<bar>k\<bar> \<le> 1 * 1"
    by (rule mult_mono) (use assms(3) k in simp_all)
  then have m3: "jmul (Num (peakImpact profile)) (Num k) = Num (peakImpact profile * k)"
    by (intro jmul_small) (simp add: abs_mult)
  have "windowImpact profile (Num t) = Num (peakImpact profile * k)"
    using Dip by (simp add: windowImpact_def Let_def d(1) m1 m2 u_def[symmetric] k(1) m3)
  then show ?thesis using k by blast
next
  case Ramp
  have "\<bar>peakImpact profile\<bar> * \<bar>t\<bar> \<le> 1 * 1"
    by (rule mult_mono) (use assms in simp_all)
  then have "jmul (Num (peakImpact profile)) (Num t) = Num (peakImpact profile * t)"
    by (intro jmul_small) (simp add: abs_mult)
  then have "windowImpact profile (Num t) = Num (peakImpact profile * t)"
    using Ramp by (simp add: windowImpact_def)
  then show ?thesis using assms by blast
next
  case Step
  then have "windowImpact profile (Num t) = Num (peakImpact profile * 1)"
    by (simp add: windowImpact_def)
  then show ?thesis by (intro exI[of _ 1]) simp
qed

lemma windowMultiplier_factor:
  assumes "\<And>start end'. resolveWindow profile dt = Some (start, end') \<Longrightarrow> start < end'"
    and "\<bar>peakImpact profile\<bar> \<le> 1"
  shows "\<exists>k. 0 \<le> k \<and> k \<le> 1 \<and> windowMultiplier profile dt = Num (1 + peakImpact profile * k)"
proof (cases "resolveWindow profile dt")
  case None
  then have "windowMultiplier profile dt = Num (1 + peakImpact profile * 0)"
    by (simp add: windowMultiplier_def)
  then show ?thesis by (intro exI[of _ 0]) simp
next
  case (Some w)
  obtain s e where w: "w = (s, e)" by (cases w)
  have lt: "s < e" using assms(1) Some w by simp
  show ?thesis
  proof (cases "dt < s \<or> dt > e")
    case True
    then have "windowMultiplier profile dt = Num (1 + peakImpact profile * 0)"
      using Some w by (auto simp: windowMultiplier_def jadd_zero)
    then show ?thesis by (intro exI[of _ 0]) simp
  next
    case False
    then have inside: "s \<le> dt" "dt \<le> e" by simp_all
    obtain t where t: "0 \<le> t" "t \<le> 1" "windowT dt s e = Num t"
      using windowT_unit[OF lt inside] by blast
    obtain k where k: "0 \<le> k" "k \<le> 1" "windowImpact profile (Num t) = Num (peakImpact profile * k)"
      using windowImpact_factor[OF t(1,2) assms(2)] by blast
    have pk: "\<bar>peakImpact profile * k\<bar> \<le> 1"
      using assms(2) k mult_mono[of "\<bar>peakImpact profile\<bar>" 1 "\<bar>k\<bar>" 1] by (simp add: abs_mult)
    have m: "windowMultiplier profile dt = jadd (Num 1) (Num (peakImpact profile * k))"
      using Some w False by (simp add: windowMultiplier_def t(3) k(3))
    from jadd_one_cases[OF pk] show ?thesis
    proof
      assume "jadd (Num 1) (Num (peakImpact profile * k)) = Num 1"
      then have "windowMultiplier profile dt = Num (1 + peakImpact profile * 0)"
        using m by simp
      then show ?thesis by (intro exI[of _ 0]) simp
    next
      assume "jadd (Num 1) (Num (peakImpact profile * k)) = Num (1 + peakImpact profile * k)"
      then have "windowMultiplier profile dt = Num (1 + peakImpact profile * k)"
        using m by simp
      then show ?thesis using k by blast
    qed
  qed
qed

lemma factor_bounds:
  fixes p k :: real
  assumes "0 \<le> k" "k \<le> 1"
  shows "(if 0 \<le> p then 1 \<le> 1 + p * k \<and> 1 + p * k \<le> 1 + p
          else 1 + p \<le> 1 + p * k \<and> 1 + p * k \<le> 1)
         \<and> \<bar>(1 + p * k) - 1\<bar> \<le> \<bar>p\<bar>"
proof -
  have a: "\<bar>p * k\<bar> \<le> \<bar>p\<bar>"
    using assms by (simp add: abs_mult mult_left_le)
  show ?thesis
  proof (cases "0 \<le> p")
    case True
    then have "0 \<le> p * k" "p * k \<le> p" using assms by (simp_all add: mult_left_le)
    then show ?thesis using True a by simp
  next
    case False
    then have "p * k \<le> 0" "p \<le> p * k"
      using assms by (simp_all add: mult_nonpos_nonneg mult_left_le_one_le)
    then show ?thesis using False a by simp
  qed
qed

text \<open>A window that starts and ends in the same year, the end after the start.\<close>

lemma monthStart_values:
  "monthStart leap 0 = 0" "monthStart leap 1 = 31"
  "monthStart leap 2 = 59 + (if leap then 1 else 0)"
  "monthStart leap 3 = 90 + (if leap then 1 else 0)"
  "monthStart leap 4 = 120 + (if leap then 1 else 0)"
  "monthStart leap 5 = 151 + (if leap then 1 else 0)"
  "monthStart leap 8 = 243 + (if leap then 1 else 0)"
  "monthStart leap 11 = 334 + (if leap then 1 else 0)"
  by (simp_all add: monthStart_def)

lemma makeUTCDate_unfold:
  assumes "1 \<le> mo" "mo \<le> 12"
  shows "makeUTCDate y mo dy
         = (DayFromYear (MakeFullYear y)
            + monthStart (DaysInYear (MakeFullYear y) = 366) (mo - 1) + dy - 1) * msPerDay"
proof -
  have "(mo - 1) div 12 = 0" "(mo - 1) mod 12 = mo - 1" using assms by simp_all
  then show ?thesis by (simp add: makeUTCDate_def DateUTC_def MakeDay_def Let_def)
qed

lemma catalog_windows_ordered:
  "makeUTCDate y 6 15 < makeUTCDate y 9 15"
  "makeUTCDate y 2 10 < makeUTCDate y 5 31"
  "makeUTCDate y 3 15 < makeUTCDate y 4 30"
  "makeUTCDate y 12 1 < makeUTCDate y 12 31"
  "makeUTCDate y 1 1 < makeUTCDate y 1 31"
  by (simp_all add: makeUTCDate_unfold monthStart_values msPerDay_def)

lemma resolveWindow_ordered:
  assumes "\<And>y. makeUTCDate y (md_m s) (md_d s) < makeUTCDate y (md_m e) (md_d e)"
    and "resolveWindow (windowed k a p s e) dt = Some (start, end')"
  shows "start < end'"
  using assms(2) assms(1)[of "getUTCFullYear dt"]
  by (auto simp: resolveWindow_def windowed_def Let_def split: if_splits)

lemma catalog_cases:
  assumes "EVENT_PROFILES tag = Some profile"
  shows "kind profile = Spike
         \<or> profile = windowed Dip (- 0.12) (- 0.25) (md 6 15) (md 9 15)
         \<or> profile = windowed Ramp 0.12 0.28 (md 2 10) (md 5 31)
         \<or> profile = windowed Step 0.08 0.18 (md 3 15) (md 4 30)
         \<or> profile = windowed Step 0.07 0.18 (md 12 1) (md 12 31)
         \<or> profile = windowed Dip (- 0.06) (- 0.12) (md 1 1) (md 1 31)"
  using assms
  by (auto simp: EVENT_PROFILES_def EVENT_PROFILES_list_def spike_def split: if_splits)

lemma shipped_windows_ordered:
  "resolveWindow (windowed Dip (- 0.12) (- 0.25) (md 6 15) (md 9 15)) dt = Some (start, end')
   \<Longrightarrow> start < end'"
  "resolveWindow (windowed Ramp 0.12 0.28 (md 2 10) (md 5 31)) dt = Some (start, end')
   \<Longrightarrow> start < end'"
  "resolveWindow (windowed Step 0.08 0.18 (md 3 15) (md 4 30)) dt = Some (start, end')
   \<Longrightarrow> start < end'"
  "resolveWindow (windowed Step 0.07 0.18 (md 12 1) (md 12 31)) dt = Some (start, end')
   \<Longrightarrow> start < end'"
  "resolveWindow (windowed Dip (- 0.06) (- 0.12) (md 1 1) (md 1 31)) dt = Some (start, end')
   \<Longrightarrow> start < end'"
  by (erule resolveWindow_ordered[rotated], simp add: md_def catalog_windows_ordered)+

lemma catalog_window_ordered:
  assumes "EVENT_PROFILES tag = Some profile" "kind profile \<noteq> Spike"
    and "resolveWindow profile dt = Some (start, end')"
  shows "start < end'"
proof -
  from catalog_cases[OF assms(1)] assms(2)
  have "profile = windowed Dip (- 0.12) (- 0.25) (md 6 15) (md 9 15)
         \<or> profile = windowed Ramp 0.12 0.28 (md 2 10) (md 5 31)
         \<or> profile = windowed Step 0.08 0.18 (md 3 15) (md 4 30)
         \<or> profile = windowed Step 0.07 0.18 (md 12 1) (md 12 31)
         \<or> profile = windowed Dip (- 0.06) (- 0.12) (md 1 1) (md 1 31)"
    by (elim disjE) simp_all
  then show ?thesis
    using assms(3) by (elim disjE) (blast intro: shipped_windows_ordered)+
qed

lemma catalog_peak_small:
  assumes "EVENT_PROFILES tag = Some profile"
  shows "\<bar>peakImpact profile\<bar> \<le> 1 / 2"
  using assms
  by (auto simp: EVENT_PROFILES_def EVENT_PROFILES_list_def spike_def windowed_def
      split: if_splits)

lemma catalog_eventMultiplier_factor:
  assumes "EVENT_PROFILES tag = Some profile"
  shows "\<exists>k. 0 \<le> k \<and> k \<le> 1
             \<and> eventMultiplier profile tag ctx dt = Num (1 + peakImpact profile * k)"
proof -
  have p: "\<bar>peakImpact profile\<bar> \<le> 1" using catalog_peak_small[OF assms] by simp
  show ?thesis
  proof (cases "kind profile = Spike")
    case True
    then show ?thesis using spikeMultiplier_factor[OF p] by (simp add: eventMultiplier_def)
  next
    case False
    then show ?thesis
      using windowMultiplier_factor[of profile dt, OF _ p] catalog_window_ordered[OF assms False]
      by (simp add: eventMultiplier_def)
  qed
qed

text \<open>
  Claim C10: for every profile of the shipped catalog and every sequence of date labels,
  each multiplier of the curve is a finite number \<open>1 + peakImpact * k\<close> with a factor
  \<open>k\<close> between 0 and 1. So it lies between \<open>1\<close> and \<open>1 + peakImpact\<close> (in this order
  for a peak impact that is not negative, in the other order for a negative one), and
  it deviates from \<open>1\<close> by at most \<open>\<bar>peakImpact\<bar>\<close>.
\<close>

theorem catalog_multiplier_bounds:
  assumes "EVENT_PROFILES tag = Some profile"
    and "m \<in> set (buildEventMultiplier EVENT_PROFILES now parse tag labels ctx)"
  shows "\<exists>k x. 0 \<le> k \<and> k \<le> 1 \<and> m = Num x \<and> x = 1 + peakImpact profile * k
           \<and> (if 0 \<le> peakImpact profile then 1 \<le> x \<and> x \<le> 1 + peakImpact profile
               else 1 + peakImpact profile \<le> x \<and> x \<le> 1)
           \<and> \<bar>x - 1\<bar> \<le> \<bar>peakImpact profile\<bar>"
proof -
  from assms obtain dt where "m = eventMultiplier profile tag ctx dt"
    by (auto simp: buildEventMultiplier_known)
  then obtain k where k: "0 \<le> k" "k \<le> 1" "m = Num (1 + peakImpact profile * k)"
    using catalog_eventMultiplier_factor[OF assms(1), of ctx dt] by auto
  show ?thesis
    using k factor_bounds[OF k(1,2), of "peakImpact profile"] by blast
qed

text \<open>
  The shipped "Year-End Promo (Dec)" step profile on 5 December 2026: the multiplier is
  \<open>1.18\<close>.
\<close>

theorem catalog_multiplier_bounds_witness:
  "EVENT_PROFILES ''Year-End Promo (Dec)'' = Some (windowed Step 0.07 0.18 (md 12 1) (md 12 31))
   \<and> buildEventMultiplier EVENT_PROFILES 0 (\<lambda>_. None) ''Year-End Promo (Dec)''
         [Text ''2026-12-05''] None = [Num 1.18]
   \<and> (\<exists>k x. (0::real) \<le> k \<and> k \<le> 1 \<and> Num 1.18 = Num x \<and> 1 \<le> x \<and> x \<le> 1.18)"
proof -
  let ?p = "windowed Step 0.07 0.18 (md 12 1) (md 12 31)"
  have h1: "EVENT_PROFILES ''Year-End Promo (Dec)'' = Some ?p"
    by (simp add: EVENT_PROFILES_def EVENT_PROFILES_list_def)
  have d: "labelDates 0 (\<lambda>_. None) [Text ''2026-12-05''] = [1796428800000]"
    by code_simp
  have r: "resolveWindow ?p 1796428800000 = Some (1796083200000, 1798675200000)"
    by code_simp
  have i: "windowImpact ?p (windowT 1796428800000 1796083200000 1798675200000) = Num 0.18"
    by (simp add: windowImpact_def windowed_def)
  have a: "jadd (Num 1) (Num 0.18) = Num 1.18"
    using jadd_one_exact[of "0.18"] by simp
  have w: "windowMultiplier ?p 1796428800000 = Num 1.18"
    using r i a by (simp add: windowMultiplier_def)
  have e: "eventMultiplier ?p ''Year-End Promo (Dec)'' None 1796428800000
           = windowMultiplier ?p 1796428800000"
    by (simp add: eventMultiplier_def windowed_def)
  have b: "buildEventMultiplier EVENT_PROFILES 0 (\<lambda>_. None) ''Year-End Promo (Dec)''
             [Text ''2026-12-05''] None = [Num 1.18]"
    by (simp only: buildEventMultiplier_known[where profiles = EVENT_PROFILES
          and tag = "''Year-End Promo (Dec)''", OF h1] d list.map e w)
  have h2: "Num 1.18 \<in> set (buildEventMultiplier EVENT_PROFILES 0 (\<lambda>_. None)
              ''Year-End Promo (Dec)'' [Text ''2026-12-05''] None)"
    by (simp only: b) simp
  have p: "peakImpact ?p = 0.18" by (simp add: windowed_def)
  have c: "\<exists>k x. (0::real) \<le> k \<and> k \<le> 1 \<and> Num 1.18 = Num x \<and> 1 \<le> x \<and> x \<le> 1.18"
    using catalog_multiplier_bounds[OF h1 h2]
    apply (elim exE conjE)
    subgoal for k x by (intro exI[of _ k] exI[of _ x]) (simp add: p)
    done
  with h1 b show ?thesis by (intro conjI)
qed

section \<open>The normalized policy on the shipped catalog\<close>

text \<open>
  End to end: on the shipped catalog every multiplier lies between \<open>1/2\<close> and \<open>2\<close>
  (between \<open>0.75\<close> and \<open>1.32\<close>, the extreme peak impacts), whatever the tag and the
  labels. So for fewer than \<open>2\<^sup>3\<^sup>2\<close> points with values of magnitude at most \<open>10\<^sup>3\<^sup>0\<^sup>0\<close>,
  the points returned under the normalized policy are finite.
\<close>

lemma catalog_curve_between:
  "list_all (between (1 / 2) 2) (buildEventMultiplier EVENT_PROFILES now parse tag labels ctx)"
proof (cases "EVENT_PROFILES tag")
  case None
  then show ?thesis by (simp add: unknown_tag_curve list_all_iff)
next
  case (Some profile)
  have "between (1 / 2) 2 (eventMultiplier profile tag ctx dt)" for dt
  proof -
    obtain k where k: "0 \<le> k" "k \<le> 1"
        "eventMultiplier profile tag ctx dt = Num (1 + peakImpact profile * k)"
      using catalog_eventMultiplier_factor[OF Some, of ctx dt] by blast
    have "\<bar>peakImpact profile\<bar> * \<bar>k\<bar> \<le> 1 / 2 * 1"
      by (rule mult_mono) (use catalog_peak_small[OF Some] k in simp_all)
    then have "\<bar>peakImpact profile * k\<bar> \<le> 1 / 2" by (simp add: abs_mult)
    then show ?thesis by (simp add: k(3)) linarith
  qed
  then show ?thesis
    by (simp add: buildEventMultiplier_known[where profiles = EVENT_PROFILES, OF Some]
        list_all_iff)
qed

lemma length_buildEventMultiplier:
  "length (buildEventMultiplier profiles now parse tag labels ctx) \<le> length labels"
  by (simp add: buildEventMultiplier_def length_labelDates split: option.splits)

lemma boundedPoint_finite: "boundedPoint b pt \<Longrightarrow> finitePoint pt"
  by (auto simp: boundedPoint_def finitePoint_def between_iff isFinite_iff)

lemma whatIfNormalized_catalog_finite:
  assumes "list_all (boundedPoint (10 ^ 300)) points" "length points < 2 ^ 32"
  shows "list_all finitePoint (whatIfNormalized EVENT_PROFILES now parse tag ctx points)"
proof (cases "getProperty EVENT_PROFILES tag")
  case None
  then show ?thesis
    using assms(1) by (auto simp: whatIfNormalized_def list_all_iff boundedPoint_finite)
next
  case (Some e)
  let ?dates = "resolvePointDates now points"
  let ?curve = "buildEventMultiplier EVENT_PROFILES now parse tag ?dates ctx"
  have "length ?curve \<le> length points"
    using length_buildEventMultiplier[of EVENT_PROFILES now parse tag ?dates ctx]
    by (simp add: length_resolvePointDates)
  then have l: "length ?curve < 2 ^ 32" using assms(2) by simp
  have n: "list_all (between (1 / 4) 4) (normalizeCurve ?curve)"
    by (rule normalizeCurve_between[OF catalog_curve_between l])
  have "list_all finitePoint (composeNormalized ?dates ?curve points)"
    unfolding composeNormalized_def Let_def
    by (rule scaled_points_finite[OF assms(1)]) (rule nthOr1_between[OF n])
  then show ?thesis using Some by (simp add: whatIfNormalized_def Let_def)
qed

section \<open>Calendar arithmetic and the year-wrap window\<close>






















section \<open>The spike kernel\<close>

text \<open>
  The impact of a spike, \<open>peakImpact * exp (- (dist / sigma)\<^sup>2 / 2)\<close>, decreases strictly
  with the distance from the centre, on the reals. The multiplier is the sum
  \<open>1 + impact\<close>, which absorbs an impact of at most \<open>2\<^sup>-\<^sup>5\<^sup>3\<close>: far from the centre the
  multipliers are all exactly \<open>1\<close> and no longer decrease.
\<close>

lemma spikeSigma_pos: "0 < spikeSigma profile"
  by (simp add: spikeSigma_def)

lemma catalog_spike_peak:
  assumes "EVENT_PROFILES tag = Some profile" "kind profile = Spike"
  shows "0 < peakImpact profile"
  using assms
  by (auto simp: EVENT_PROFILES_def EVENT_PROFILES_list_def spike_def windowed_def
      split: if_splits)

lemma gauss_strict:
  fixes s u v :: real
  assumes "0 < s" "\<bar>u\<bar> < \<bar>v\<bar>"
  shows "exp (- 0.5 * (v / s) ^ 2) < exp (- 0.5 * (u / s) ^ 2)"
proof -
  have "\<bar>u / s\<bar> < \<bar>v / s\<bar>" using assms by (simp add: divide_strict_right_mono)
  then have "\<bar>u / s\<bar> ^ 2 < \<bar>v / s\<bar> ^ 2"
    by (intro power_strict_mono) simp_all
  then have "(u / s) ^ 2 < (v / s) ^ 2" unfolding power2_abs .
  then show ?thesis by simp
qed

lemma gauss_sym:
  fixes s u v :: real
  assumes "\<bar>u\<bar> = \<bar>v\<bar>"
  shows "exp (- 0.5 * (v / s) ^ 2) = exp (- 0.5 * (u / s) ^ 2)"
proof -
  have "\<bar>u / s\<bar> ^ 2 = \<bar>v / s\<bar> ^ 2" using assms by (simp add: abs_divide)
  then have "(u / s) ^ 2 = (v / s) ^ 2" unfolding power2_abs .
  then show ?thesis by simp
qed

lemma gauss_peak:
  fixes s u :: real
  assumes "0 < s"
  shows "exp (- 0.5 * (u / s) ^ 2) \<le> 1"
    and "exp (- 0.5 * (u / s) ^ 2) = 1 \<longleftrightarrow> u = 0"
  using assms by simp_all

lemma abs_spikeDist: "\<bar>spikeDist a ca\<bar> = real_of_int \<bar>a - ca\<bar> / 86400000"
  unfolding spikeDist_def by (simp only: abs_divide of_int_abs abs_numeral)

lemma spikeDist_abs:
  "\<bar>spikeDist a ca\<bar> < \<bar>spikeDist b cb\<bar> \<longleftrightarrow> \<bar>a - ca\<bar> < \<bar>b - cb\<bar>"
  "\<bar>spikeDist a ca\<bar> = \<bar>spikeDist b cb\<bar> \<longleftrightarrow> \<bar>a - ca\<bar> = \<bar>b - cb\<bar>"
  "spikeDist a ca = 0 \<longleftrightarrow> a = ca"
proof -
  show "\<bar>spikeDist a ca\<bar> < \<bar>spikeDist b cb\<bar> \<longleftrightarrow> \<bar>a - ca\<bar> < \<bar>b - cb\<bar>"
    unfolding abs_spikeDist by (simp add: divide_less_cancel del: of_int_abs of_int_diff)
  show "\<bar>spikeDist a ca\<bar> = \<bar>spikeDist b cb\<bar> \<longleftrightarrow> \<bar>a - ca\<bar> = \<bar>b - cb\<bar>"
    unfolding abs_spikeDist by (simp del: of_int_abs of_int_diff)
  show "spikeDist a ca = 0 \<longleftrightarrow> a = ca"
    by (simp add: spikeDist_def)
qed

lemma catalog_spike_peak_large:
  assumes "EVENT_PROFILES tag = Some profile" "kind profile = Spike"
  shows "1 / 2 ^ 53 < peakImpact profile"
  using assms
  by (auto simp: EVENT_PROFILES_def EVENT_PROFILES_list_def spike_def windowed_def
      split: if_splits)

text \<open>The multiplier of a spike with a positive peak impact of at most \<open>1\<close>.\<close>

lemma spikeImpact_Num:
  assumes "\<bar>peakImpact profile\<bar> \<le> 1"
  shows "spikeImpact profile dt c
         = Num (peakImpact profile * exp (- 0.5 * (spikeDist dt c / spikeSigma profile) ^ 2))"
proof -
  define g where "g = exp (- 0.5 * (spikeDist dt c / spikeSigma profile) ^ 2)"
  have g: "0 \<le> g" "g \<le> 1" by (simp_all add: g_def)
  have "\<bar>peakImpact profile * g\<bar> \<le> 1"
    using assms g mult_mono[of "\<bar>peakImpact profile\<bar>" 1 "\<bar>g\<bar>" 1] by (simp add: abs_mult)
  then have "jmul (Num (peakImpact profile)) (Num g) = Num (peakImpact profile * g)"
    by (intro jmul_small) simp
  then show ?thesis by (simp add: spikeImpact_def Let_def g_def)
qed

lemma spike_eventMultiplier:
  assumes "kind profile = Spike" "resolveCenter profile tag ctx dt = Some c"
    and "0 < peakImpact profile" "peakImpact profile \<le> 1"
    and "i = peakImpact profile * exp (- 0.5 * (spikeDist dt c / spikeSigma profile) ^ 2)"
  shows "eventMultiplier profile tag ctx dt = Num (if i \<le> 1 / 2 ^ 53 then 1 else 1 + i)"
proof -
  define g where "g = exp (- 0.5 * (spikeDist dt c / spikeSigma profile) ^ 2)"
  have g: "0 < g" "g \<le> 1" by (simp_all add: g_def)
  have i: "i = peakImpact profile * g" by (simp add: assms(5) g_def)
  have i0: "0 < i" using assms(3) g(1) by (simp add: i)
  have "peakImpact profile * g \<le> 1 * 1"
    by (rule mult_mono) (use assms(3,4) g in simp_all)
  then have i1: "\<bar>i\<bar> \<le> 1" using i0 by (simp add: i)
  have "spikeImpact profile dt c = Num i"
    using assms(3,4) by (simp add: spikeImpact_Num assms(5))
  then have "eventMultiplier profile tag ctx dt = jadd (Num 1) (Num i)"
    using assms(1,2) by (simp add: eventMultiplier_def spikeMultiplier_def)
  then show ?thesis using i0 by (simp add: jadd_one[OF i1])
qed

text \<open>
  Claim C7, as the code has it: for a spike profile of the shipped catalog whose centre
  resolves, the impact is \<open>peakImpact * exp (- (dist / sigma)\<^sup>2 / 2)\<close> with
  \<open>sigma = max 3 (widthDays / 2.355)\<close>, and the multiplier is \<open>1 + impact\<close>, or \<open>1\<close>
  when the impact is at most \<open>2\<^sup>-\<^sup>5\<^sup>3\<close>. The multiplier is at most \<open>1 + peakImpact\<close>, with
  equality exactly at the centre date; of two dates the one further from its centre
  never has the larger multiplier, and it has the strictly smaller one as long as the
  impact of the nearer date exceeds \<open>2\<^sup>-\<^sup>5\<^sup>3\<close>; dates equally far from their centres have
  equal multipliers.
\<close>

theorem spike_kernel_shape:
  assumes "EVENT_PROFILES tag = Some profile" "kind profile = Spike"
    and "resolveCenter profile tag ctx a = Some ca"
    and "resolveCenter profile tag ctx b = Some cb"
  shows "\<exists>x y i. eventMultiplier profile tag ctx a = Num x
           \<and> eventMultiplier profile tag ctx b = Num y
           \<and> spikeImpact profile a ca = Num i
           \<and> i = peakImpact profile
                    * exp (- 0.5 * (spikeDist a ca
                        / max 3 ((case widthDays profile of None \<Rightarrow> 14 | Some w \<Rightarrow> w) / 2.355)) ^ 2)
           \<and> x = (if i \<le> 1 / 2 ^ 53 then 1 else 1 + i)
           \<and> x \<le> 1 + peakImpact profile
           \<and> (x = 1 + peakImpact profile \<longleftrightarrow> a = ca)
           \<and> (\<bar>a - ca\<bar> \<le> \<bar>b - cb\<bar> \<longrightarrow> y \<le> x)
           \<and> (\<bar>a - ca\<bar> = \<bar>b - cb\<bar> \<longrightarrow> x = y)
           \<and> (\<bar>a - ca\<bar> < \<bar>b - cb\<bar> \<and> 1 / 2 ^ 53 < i \<longrightarrow> y < x)"
proof -
  let ?s = "spikeSigma profile"
  let ?g = "\<lambda>u. exp (- 0.5 * (u / ?s) ^ 2)"
  define p where "p = peakImpact profile"
  define i where "i = p * ?g (spikeDist a ca)"
  define j where "j = p * ?g (spikeDist b cb)"
  define x where "x = (if i \<le> 1 / 2 ^ 53 then 1 else 1 + i)"
  define y where "y = (if j \<le> 1 / 2 ^ 53 then 1 else 1 + j)"
  have p: "0 < p" unfolding p_def by (rule catalog_spike_peak[OF assms(1,2)])
  have p1: "p \<le> 1" "\<bar>peakImpact profile\<bar> \<le> 1"
    using catalog_peak_small[OF assms(1)] by (simp_all add: p_def)
  have pl: "1 / 2 ^ 53 < p" unfolding p_def by (rule catalog_spike_peak_large[OF assms(1,2)])
  have s: "0 < ?s" by (rule spikeSigma_pos)
  have xa: "eventMultiplier profile tag ctx a = Num x"
    unfolding x_def
    by (rule spike_eventMultiplier[OF assms(2,3)]) (use p p1 in \<open>simp_all add: p_def i_def\<close>)
  have yb: "eventMultiplier profile tag ctx b = Num y"
    unfolding y_def
    by (rule spike_eventMultiplier[OF assms(2,4)]) (use p p1 in \<open>simp_all add: p_def j_def\<close>)
  have im: "spikeImpact profile a ca = Num i"
    by (simp add: spikeImpact_Num[OF p1(2)] i_def p_def)
  have ie: "i = peakImpact profile
                * exp (- 0.5 * (spikeDist a ca
                    / max 3 ((case widthDays profile of None \<Rightarrow> 14 | Some w \<Rightarrow> w) / 2.355)) ^ 2)"
    by (simp add: i_def p_def spikeSigma_def)
  have i0: "0 < i" "0 < j" using p by (simp_all add: i_def j_def)
  have ip: "i \<le> p"
    using p gauss_peak(1)[OF s, of "spikeDist a ca"] by (simp add: i_def mult_left_le)
  have le: "x \<le> 1 + peakImpact profile"
    using ip i0 p by (simp add: x_def p_def)
  have eq: "x = 1 + peakImpact profile \<longleftrightarrow> a = ca"
  proof
    assume e: "x = 1 + peakImpact profile"
    have "i = p"
    proof (cases "i \<le> 1 / 2 ^ 53")
      case True
      then show ?thesis using e p by (simp add: x_def p_def)
    next
      case False
      then show ?thesis using e by (simp add: x_def p_def)
    qed
    then have "?g (spikeDist a ca) = 1" using p by (simp add: i_def)
    then show "a = ca" using gauss_peak(2)[OF s, of "spikeDist a ca"] by (simp add: spikeDist_abs(3))
  next
    assume "a = ca"
    then have "i = p" by (simp add: i_def spikeDist_def)
    then show "x = 1 + peakImpact profile" using pl by (simp add: x_def p_def)
  qed
  have mono: "y \<le> x" if "j \<le> i"
    using that i0 by (auto simp: x_def y_def)
  have nonincr: "\<bar>a - ca\<bar> \<le> \<bar>b - cb\<bar> \<longrightarrow> y \<le> x"
  proof
    assume d: "\<bar>a - ca\<bar> \<le> \<bar>b - cb\<bar>"
    show "y \<le> x"
    proof (cases "\<bar>a - ca\<bar> = \<bar>b - cb\<bar>")
      case True
      then have "?g (spikeDist b cb) = ?g (spikeDist a ca)"
        using gauss_sym[of "spikeDist a ca" "spikeDist b cb" ?s] by (simp add: spikeDist_abs(2))
      then have "j = i" by (simp add: i_def j_def)
      then show ?thesis by (intro mono) simp
    next
      case False
      then have "\<bar>a - ca\<bar> < \<bar>b - cb\<bar>" using d by simp
      then have "?g (spikeDist b cb) < ?g (spikeDist a ca)"
        using gauss_strict[OF s, of "spikeDist a ca" "spikeDist b cb"]
        by (simp add: spikeDist_abs(1))
      then have "j \<le> i" using p by (simp add: i_def j_def)
      then show ?thesis by (rule mono)
    qed
  qed
  have sy: "\<bar>a - ca\<bar> = \<bar>b - cb\<bar> \<longrightarrow> x = y"
  proof
    assume "\<bar>a - ca\<bar> = \<bar>b - cb\<bar>"
    then have "?g (spikeDist b cb) = ?g (spikeDist a ca)"
      using gauss_sym[of "spikeDist a ca" "spikeDist b cb" ?s] by (simp add: spikeDist_abs(2))
    then have "j = i" by (simp add: i_def j_def)
    then show "x = y" by (simp add: x_def y_def)
  qed
  have lt: "\<bar>a - ca\<bar> < \<bar>b - cb\<bar> \<and> 1 / 2 ^ 53 < i \<longrightarrow> y < x"
  proof
    assume h: "\<bar>a - ca\<bar> < \<bar>b - cb\<bar> \<and> 1 / 2 ^ 53 < i"
    then have "?g (spikeDist b cb) < ?g (spikeDist a ca)"
      using gauss_strict[OF s, of "spikeDist a ca" "spikeDist b cb"]
      by (simp add: spikeDist_abs(1))
    then have "j < i" using p by (simp add: i_def j_def)
    then show "y < x" using h i0 by (auto simp: x_def y_def)
  qed
  show ?thesis using xa yb im ie x_def le eq nonincr sy lt by blast
qed

text \<open>
  The shipped "Diwali Festival (Oct-Nov)" spike at its centre, 25 October 2026, and on
  the day after: the multiplier is \<open>1.32\<close> at the centre and smaller the day after.
\<close>

theorem spike_kernel_shape_witness:
  "EVENT_PROFILES ''Diwali Festival (Oct-Nov)'' = Some (spike 0.18 0.32 (Some (md 10 25)) 24)
   \<and> resolveCenter (spike 0.18 0.32 (Some (md 10 25)) 24) ''Diwali Festival (Oct-Nov)'' None
        (makeUTCDate 2026 10 25) = Some (makeUTCDate 2026 10 25)
   \<and> resolveCenter (spike 0.18 0.32 (Some (md 10 25)) 24) ''Diwali Festival (Oct-Nov)'' None
        (makeUTCDate 2026 10 26) = Some (makeUTCDate 2026 10 25)
   \<and> eventMultiplier (spike 0.18 0.32 (Some (md 10 25)) 24) ''Diwali Festival (Oct-Nov)'' None
        (makeUTCDate 2026 10 25) = Num 1.32
   \<and> (\<exists>y. eventMultiplier (spike 0.18 0.32 (Some (md 10 25)) 24) ''Diwali Festival (Oct-Nov)''
              None (makeUTCDate 2026 10 26) = Num y \<and> y < 1.32)"
proof -
  let ?p = "spike 0.18 0.32 (Some (md 10 25)) 24"
  let ?tag = "''Diwali Festival (Oct-Nov)''"
  have h1: "EVENT_PROFILES ?tag = Some ?p"
    by (simp add: EVENT_PROFILES_def EVENT_PROFILES_list_def)
  have h2: "kind ?p = Spike" by (simp add: spike_def)
  have y: "getUTCFullYear (makeUTCDate 2026 10 25) = 2026"
      "getUTCFullYear (makeUTCDate 2026 10 26) = 2026"
    by code_simp+
  have h3: "resolveCenter ?p ?tag None (makeUTCDate 2026 10 25) = Some (makeUTCDate 2026 10 25)"
    by (simp add: resolveCenter_def spike_def md_def y)
  have h4: "resolveCenter ?p ?tag None (makeUTCDate 2026 10 26) = Some (makeUTCDate 2026 10 25)"
    by (simp add: resolveCenter_def spike_def md_def y)
  have d: "\<bar>makeUTCDate 2026 10 25 - makeUTCDate 2026 10 25\<bar>
           < \<bar>makeUTCDate 2026 10 26 - makeUTCDate 2026 10 25\<bar>"
    by code_simp
  have pk: "peakImpact ?p = 0.32" by (simp add: spike_def)
  from spike_kernel_shape[where tag = ?tag and profile = ?p and ctx = None, OF h1 h2 h3 h4]
  obtain x y' i where r:
      "eventMultiplier ?p ?tag None (makeUTCDate 2026 10 25) = Num x"
      "eventMultiplier ?p ?tag None (makeUTCDate 2026 10 26) = Num y'"
      "x = (if i \<le> 1 / 2 ^ 53 then 1 else 1 + i)"
      "x = 1 + peakImpact ?p \<longleftrightarrow> makeUTCDate 2026 10 25 = makeUTCDate 2026 10 25"
      "\<bar>makeUTCDate 2026 10 25 - makeUTCDate 2026 10 25\<bar>
         < \<bar>makeUTCDate 2026 10 26 - makeUTCDate 2026 10 25\<bar> \<and> 1 / 2 ^ 53 < i \<longrightarrow> y' < x"
    by blast
  have x: "x = 1.32" using r(4) pk by simp
  have i: "1 / 2 ^ 53 < i"
  proof (rule ccontr)
    assume "\<not> 1 / 2 ^ 53 < i"
    then have "x = 1" using r(3) by simp
    then show False using x by simp
  qed
  have lt: "y' < 1.32" using r(5) d i x by simp
  have e1: "eventMultiplier ?p ?tag None (makeUTCDate 2026 10 25) = Num 1.32"
    using r(1) x by simp
  have e2: "\<exists>y. eventMultiplier ?p ?tag None (makeUTCDate 2026 10 26) = Num y \<and> y < 1.32"
    using r(2) lt by blast
  show ?thesis using h1 h3 h4 e1 e2 by (intro conjI)
qed

text \<open>
  An impact whose exponent is at least \<open>36.4\<close> in magnitude, for a peak impact of at
  most \<open>0.32\<close>, is below \<open>2\<^sup>-\<^sup>5\<^sup>3\<close>: \<open>exp 36.4\<close> is at least \<open>(1 + 36.4/1024)\<^sup>1\<^sup>0\<^sup>2\<^sup>4\<close>, which
  ten squarings bound from below by \<open>3.4 * 10\<^sup>1\<^sup>5\<close>, more than \<open>0.32 * 2\<^sup>5\<^sup>3\<close>.
\<close>

lemma sq_lower:
  fixes c d x :: real
  assumes "c \<le> x" "0 \<le> c" "d \<le> c * c"
  shows "d \<le> x ^ 2"
proof -
  have "c * c \<le> x * x" by (rule mult_mono) (use assms in simp_all)
  then show ?thesis using assms(3) by (simp add: power2_eq_square)
qed

lemma exp_364: "32 / 100 * 2 ^ 53 \<le> exp (364 / 10 :: real)"
proof -
  define a :: real where "a = 2651 / 2560"
  have k0: "2651 / 2560 \<le> a" by (simp add: a_def)
  have k1: "107235733 / 100000000 \<le> a ^ 2"
    by (rule sq_lower[OF k0]) simp_all
  have k2: "7187189 / 6250000 \<le> (a ^ 2) ^ 2"
    by (rule sq_lower[OF k1]) simp_all
  have k3: "26447711 / 20000000 \<le> ((a ^ 2) ^ 2) ^ 2"
    by (rule sq_lower[OF k2]) simp_all
  have k4: "87435177 / 50000000 \<le> (((a ^ 2) ^ 2) ^ 2) ^ 2"
    by (rule sq_lower[OF k3]) simp_all
  have k5: "305796407 / 100000000 \<le> ((((a ^ 2) ^ 2) ^ 2) ^ 2) ^ 2"
    by (rule sq_lower[OF k4]) simp_all
  have k6: "37404577 / 4000000 \<le> (((((a ^ 2) ^ 2) ^ 2) ^ 2) ^ 2) ^ 2"
    by (rule sq_lower[OF k5]) simp_all
  have k7: "874438987 / 10000000 \<le> ((((((a ^ 2) ^ 2) ^ 2) ^ 2) ^ 2) ^ 2) ^ 2"
    by (rule sq_lower[OF k6]) simp_all
  have k8: "764643541 / 100000 \<le> (((((((a ^ 2) ^ 2) ^ 2) ^ 2) ^ 2) ^ 2) ^ 2) ^ 2"
    by (rule sq_lower[OF k7]) simp_all
  have k9: "292339872 / 5 \<le> ((((((((a ^ 2) ^ 2) ^ 2) ^ 2) ^ 2) ^ 2) ^ 2) ^ 2) ^ 2"
    by (rule sq_lower[OF k8]) simp_all
  have k10: "3418504030000000 \<le> (((((((((a ^ 2) ^ 2) ^ 2) ^ 2) ^ 2) ^ 2) ^ 2) ^ 2) ^ 2) ^ 2"
    by (rule sq_lower[OF k9]) simp_all
  have p: "(((((((((a ^ 2) ^ 2) ^ 2) ^ 2) ^ 2) ^ 2) ^ 2) ^ 2) ^ 2) ^ 2 = a ^ 1024"
    by (simp only: power_mult[symmetric]) simp
  have e: "1 + (364 / 10) / real 1024 = a" by (simp add: a_def)
  have "(1 + (364 / 10) / real 1024) ^ 1024 \<le> exp (364 / 10 :: real)"
    by (rule exp_ge_one_plus_x_over_n_power_n) simp_all
  then have "a ^ 1024 \<le> exp (364 / 10 :: real)" unfolding e .
  then have "3418504030000000 \<le> exp (364 / 10 :: real)" using k10 p by linarith
  then show ?thesis by simp
qed

lemma far_impact_absorbed:
  fixes p z :: real
  assumes "364 / 10 \<le> z" "0 < p" "p \<le> 32 / 100"
  shows "p * exp (- z) \<le> 1 / 2 ^ 53"
proof -
  have "exp (364 / 10) \<le> exp z" using assms(1) by simp
  then have e: "32 / 100 * 2 ^ 53 \<le> exp z" using exp_364 by linarith
  have "exp z * (p * exp (- z)) = p" by (simp add: exp_minus)
  moreover have "(32 / 100 * 2 ^ 53) * (p * exp (- z)) \<le> exp z * (p * exp (- z))"
    by (rule mult_right_mono[OF e]) (use assms(2) in simp)
  ultimately have "(32 / 100 * 2 ^ 53) * (p * exp (- z)) \<le> 32 / 100"
    using assms(3) by linarith
  then show ?thesis by simp
qed

text \<open>
  Claim C7 as stated fails: the shipped "Diwali Festival (Oct-Nov)" spike on 30 and
  29 July, 1 July and 1 January 2026, which are 87, 88, 116 and 297 days before the
  centre, 25 October 2026. The four impacts are below \<open>2\<^sup>-\<^sup>5\<^sup>3\<close> and the four multipliers
  are exactly \<open>1\<close>: the multiplier does not decrease from a nearer date to a further
  one.
\<close>

theorem spike_far_dates_tie:
  "EVENT_PROFILES ''Diwali Festival (Oct-Nov)'' = Some (spike 0.18 0.32 (Some (md 10 25)) 24)
   \<and> labelDates 0 (\<lambda>_. None)
        [Text ''2026-07-30'', Text ''2026-07-29'', Text ''2026-07-01'', Text ''2026-01-01'']
       = [makeUTCDate 2026 7 30, makeUTCDate 2026 7 29, makeUTCDate 2026 7 1,
          makeUTCDate 2026 1 1]
   \<and> map (resolveCenter (spike 0.18 0.32 (Some (md 10 25)) 24) ''Diwali Festival (Oct-Nov)'' None)
        [makeUTCDate 2026 7 30, makeUTCDate 2026 7 29, makeUTCDate 2026 7 1,
         makeUTCDate 2026 1 1]
       = [Some (makeUTCDate 2026 10 25), Some (makeUTCDate 2026 10 25),
          Some (makeUTCDate 2026 10 25), Some (makeUTCDate 2026 10 25)]
   \<and> map (\<lambda>dt. spikeDist dt (makeUTCDate 2026 10 25))
        [makeUTCDate 2026 7 30, makeUTCDate 2026 7 29, makeUTCDate 2026 7 1,
         makeUTCDate 2026 1 1]
       = [- 87, - 88, - 116, - 297]
   \<and> buildEventMultiplier EVENT_PROFILES 0 (\<lambda>_. None) ''Diwali Festival (Oct-Nov)''
        [Text ''2026-07-30'', Text ''2026-07-29'', Text ''2026-07-01'', Text ''2026-01-01''] None
       = [Num 1, Num 1, Num 1, Num 1]"
proof -
  let ?p = "spike 0.18 0.32 (Some (md 10 25)) 24"
  let ?tag = "''Diwali Festival (Oct-Nov)''"
  let ?c = "makeUTCDate 2026 10 25"
  have h1: "EVENT_PROFILES ?tag = Some ?p"
    by (simp add: EVENT_PROFILES_def EVENT_PROFILES_list_def)
  have k: "kind ?p = Spike" by (simp add: spike_def)
  have pk: "0 < peakImpact ?p" "peakImpact ?p \<le> 32 / 100" by (simp_all add: spike_def)
  have p1: "peakImpact ?p \<le> 1" using pk(2) by simp
  have sg: "spikeSigma ?p = 24 / 2.355" by (simp add: spikeSigma_def spike_def)
  have l: "labelDates 0 (\<lambda>_. None)
        [Text ''2026-07-30'', Text ''2026-07-29'', Text ''2026-07-01'', Text ''2026-01-01'']
       = [makeUTCDate 2026 7 30, makeUTCDate 2026 7 29, makeUTCDate 2026 7 1,
          makeUTCDate 2026 1 1]"
    by code_simp
  have y: "getUTCFullYear (makeUTCDate 2026 7 30) = 2026"
      "getUTCFullYear (makeUTCDate 2026 7 29) = 2026"
      "getUTCFullYear (makeUTCDate 2026 7 1) = 2026"
      "getUTCFullYear (makeUTCDate 2026 1 1) = 2026"
    by code_simp+
  have c: "resolveCenter ?p ?tag None (makeUTCDate 2026 7 30) = Some ?c"
      "resolveCenter ?p ?tag None (makeUTCDate 2026 7 29) = Some ?c"
      "resolveCenter ?p ?tag None (makeUTCDate 2026 7 1) = Some ?c"
      "resolveCenter ?p ?tag None (makeUTCDate 2026 1 1) = Some ?c"
    by (simp_all add: resolveCenter_def spike_def md_def y)
  have t: "makeUTCDate 2026 7 30 - ?c = - 87 * 86400000"
      "makeUTCDate 2026 7 29 - ?c = - 88 * 86400000"
      "makeUTCDate 2026 7 1 - ?c = - 116 * 86400000"
      "makeUTCDate 2026 1 1 - ?c = - 297 * 86400000"
    by code_simp+
  have d: "spikeDist (makeUTCDate 2026 7 30) ?c = - 87"
      "spikeDist (makeUTCDate 2026 7 29) ?c = - 88"
      "spikeDist (makeUTCDate 2026 7 1) ?c = - 116"
      "spikeDist (makeUTCDate 2026 1 1) ?c = - 297"
    unfolding spikeDist_def t by simp_all
  have z: "(364 / 10 :: real) \<le> 0.5 * (- 87 / (24 / 2.355)) ^ 2"
      "(364 / 10 :: real) \<le> 0.5 * (- 88 / (24 / 2.355)) ^ 2"
      "(364 / 10 :: real) \<le> 0.5 * (- 116 / (24 / 2.355)) ^ 2"
      "(364 / 10 :: real) \<le> 0.5 * (- 297 / (24 / 2.355)) ^ 2"
    by (simp_all add: power2_eq_square)
  have a: "peakImpact ?p * exp (- 0.5 * (spikeDist (makeUTCDate 2026 7 30) ?c / spikeSigma ?p) ^ 2)
            \<le> 1 / 2 ^ 53"
      "peakImpact ?p * exp (- 0.5 * (spikeDist (makeUTCDate 2026 7 29) ?c / spikeSigma ?p) ^ 2)
            \<le> 1 / 2 ^ 53"
      "peakImpact ?p * exp (- 0.5 * (spikeDist (makeUTCDate 2026 7 1) ?c / spikeSigma ?p) ^ 2)
            \<le> 1 / 2 ^ 53"
      "peakImpact ?p * exp (- 0.5 * (spikeDist (makeUTCDate 2026 1 1) ?c / spikeSigma ?p) ^ 2)
            \<le> 1 / 2 ^ 53"
    unfolding d sg
    using far_impact_absorbed[OF z(1) pk] far_impact_absorbed[OF z(2) pk]
      far_impact_absorbed[OF z(3) pk] far_impact_absorbed[OF z(4) pk]
    by simp_all
  have m: "eventMultiplier ?p ?tag None (makeUTCDate 2026 7 30) = Num 1"
      "eventMultiplier ?p ?tag None (makeUTCDate 2026 7 29) = Num 1"
      "eventMultiplier ?p ?tag None (makeUTCDate 2026 7 1) = Num 1"
      "eventMultiplier ?p ?tag None (makeUTCDate 2026 1 1) = Num 1"
    using spike_eventMultiplier[OF k c(1) pk(1) p1 refl] a(1)
      spike_eventMultiplier[OF k c(2) pk(1) p1 refl] a(2)
      spike_eventMultiplier[OF k c(3) pk(1) p1 refl] a(3)
      spike_eventMultiplier[OF k c(4) pk(1) p1 refl] a(4)
    by simp_all
  have b: "buildEventMultiplier EVENT_PROFILES 0 (\<lambda>_. None) ?tag
        [Text ''2026-07-30'', Text ''2026-07-29'', Text ''2026-07-01'', Text ''2026-01-01''] None
       = [Num 1, Num 1, Num 1, Num 1]"
    by (simp only: buildEventMultiplier_known[where profiles = EVENT_PROFILES
          and tag = ?tag, OF h1] l list.map m)
  have cs: "map (resolveCenter ?p ?tag None)
        [makeUTCDate 2026 7 30, makeUTCDate 2026 7 29, makeUTCDate 2026 7 1,
         makeUTCDate 2026 1 1]
       = [Some ?c, Some ?c, Some ?c, Some ?c]"
    by (simp only: list.map c)
  have ds: "map (\<lambda>dt. spikeDist dt ?c)
        [makeUTCDate 2026 7 30, makeUTCDate 2026 7 29, makeUTCDate 2026 7 1,
         makeUTCDate 2026 1 1]
       = [- 87, - 88, - 116, - 297]"
    by (simp only: list.map d)
  show ?thesis using h1 l cs ds b by (intro conjI)
qed

end
